theory Spec2Isabelle
  imports Main "HOL-Library.Word" "HOL-Library.Signed_Division" "HOL-Library.AList"
begin

unbundle bit_operations_syntax

section \<open>Go library functions used by package cgroup\<close>

text \<open>
  Package \<open>common/cgroup\<close> of rkt is a thin layer over the Go standard library. The
  functions of \<open>strings\<close>, \<open>strconv\<close>, \<open>path/filepath\<close> and \<open>fmt\<close> that it calls are
  modelled here on byte strings, following the library's documented behaviour on
  Linux. A Go \<open>string\<close> is a \<open>char list\<close>; \<open>int\<close>, \<open>int64\<close> and \<open>uintptr\<close> are 64 bits wide
  (the linux/amd64 target of rkt).
\<close>

subsection \<open>strings\<close>

text \<open>\<open>strings.Split(s, sep)\<close> for a one-byte separator: never the empty list.\<close>

fun strings_Split :: "string \<Rightarrow> char \<Rightarrow> string list" where
  "strings_Split [] sep = [[]]"
| "strings_Split (x # xs) sep =
     (if x = sep then [] # strings_Split xs sep
      else (case strings_Split xs sep of
              [] \<Rightarrow> [[x]]
            | p # ps \<Rightarrow> (x # p) # ps))"

text \<open>\<open>strings.SplitN(s, sep, n)\<close> for \<open>n \<ge> 0\<close>: at most \<open>n\<close> substrings, the last one the
  unsplit remainder.\<close>

fun strings_SplitN :: "string \<Rightarrow> char \<Rightarrow> nat \<Rightarrow> string list" where
  "strings_SplitN s sep 0 = []"
| "strings_SplitN s sep (Suc 0) = [s]"
| "strings_SplitN s sep (Suc (Suc n)) =
     (if sep \<in> set s
      then takeWhile (\<lambda>c. c \<noteq> sep) s
             # strings_SplitN (tl (dropWhile (\<lambda>c. c \<noteq> sep) s)) sep (Suc n)
      else [s])"

fun strings_Join :: "string list \<Rightarrow> string \<Rightarrow> string" where
  "strings_Join [] sep = []"
| "strings_Join [a] sep = a"
| "strings_Join (a # b # r) sep = a @ sep @ strings_Join (b # r) sep"

definition strings_HasPrefix :: "string \<Rightarrow> string \<Rightarrow> bool" where
  "strings_HasPrefix s pre = (take (length pre) s = pre)"



text \<open>White space as \<open>unicode.IsSpace\<close> sees it on ASCII input: tab, line feed, vertical
  tab, form feed, carriage return and space. The files read by this package
  (\<open>/proc/cgroups\<close>, the cpuset knobs) are ASCII; the multi-byte Unicode spaces are
  outside the model.\<close>

definition isSpace :: "char \<Rightarrow> bool" where
  "isSpace c = (c \<in> set [CHR 0x09, CHR 0x0A, CHR 0x0B, CHR 0x0C, CHR 0x0D, CHR '' ''])"

text \<open>\<open>strings.TrimSpace(s) != ""\<close>.\<close>

definition TrimSpace_nonempty :: "string \<Rightarrow> bool" where
  "TrimSpace_nonempty s = (\<exists>c \<in> set s. \<not> isSpace c)"

subsection \<open>path/filepath\<close>

text \<open>
  \<open>filepath.Clean\<close> on Linux, element by element: empty elements and \<open>.\<close> are dropped,
  \<open>..\<close> removes the element before it, is dropped at the root, and is kept at the
  start of a relative path. \<open>stack\<close> holds the elements kept so far, last first.
\<close>

fun clean_elems :: "string list \<Rightarrow> bool \<Rightarrow> string list \<Rightarrow> string list" where
  "clean_elems [] rooted stack = rev stack"
| "clean_elems (e # es) rooted stack =
     (if e = [] \<or> e = ''.'' then clean_elems es rooted stack
      else if e = ''..'' then
        (case stack of
           [] \<Rightarrow> if rooted then clean_elems es rooted [] else clean_elems es rooted [e]
         | t # ts \<Rightarrow>
             if t = ''..'' then clean_elems es rooted (e # stack)
             else clean_elems es rooted ts)
      else clean_elems es rooted (e # stack))"

definition filepath_Clean :: "string \<Rightarrow> string" where
  "filepath_Clean path =
     (let rooted = (path \<noteq> [] \<and> hd path = CHR ''/'');
          cleaned = (if rooted then ''/'' else [])
                    @ strings_Join (clean_elems (strings_Split path CHR ''/'') rooted []) ''/''
      in if cleaned = [] then ''.'' else cleaned)"

text \<open>\<open>filepath.Join\<close>: leading empty elements are ignored, the rest is joined with
  slashes and cleaned; the result is empty when every element is.\<close>

definition filepath_Join :: "string list \<Rightarrow> string" where
  "filepath_Join elem =
     (let es = dropWhile (\<lambda>e. e = []) elem
      in if es = [] then [] else filepath_Clean (strings_Join es ''/''))"

text \<open>\<open>filepath.Dir\<close>: all but the last element of the path, cleaned.\<close>

definition filepath_Dir :: "string \<Rightarrow> string" where
  "filepath_Dir path = filepath_Clean (rev (dropWhile (\<lambda>c. c \<noteq> CHR ''/'') (rev path)))"

subsection \<open>strconv\<close>

definition digit_char :: "nat \<Rightarrow> char" where
  "digit_char d = ''0123456789'' ! d"

definition isDigit :: "char \<Rightarrow> bool" where
  "isDigit c = (c \<in> set ''0123456789'')"

definition digit_val :: "char \<Rightarrow> nat" where
  "digit_val c = of_char c - 48"

function nat_digits :: "nat \<Rightarrow> string" where
  "nat_digits n =
     (if n < 10 then [digit_char n]
      else nat_digits (n div 10) @ [digit_char (n mod 10)])"
  by pat_completeness auto
termination
  by (relation "measure id") auto

declare nat_digits.simps [simp del]

text \<open>\<open>strconv.Itoa\<close>: the decimal digits, with a leading minus sign for a negative
  number.\<close>

definition Itoa :: "int \<Rightarrow> string" where
  "Itoa i = (if i < 0 then CHR ''-'' # nat_digits (nat (- i)) else nat_digits (nat i))"

text \<open>The number a string of decimal digits denotes, and the reading of a signed
  decimal numeral (\<open>None\<close> when the string is not one).\<close>

definition digits_val :: "string \<Rightarrow> nat" where
  "digits_val ds = foldl (\<lambda>a c. 10 * a + digit_val c) 0 ds"

definition decimal_val :: "string \<Rightarrow> int option" where
  "decimal_val s =
     (case s of
        [] \<Rightarrow> None
      | c # ds \<Rightarrow>
          if c = CHR ''-'' then
            (if ds \<noteq> [] \<and> list_all isDigit ds then Some (- int (digits_val ds)) else None)
          else if list_all isDigit s then Some (int (digits_val s))
          else None)"

section \<open>Errors\<close>

text \<open>
  Go error values. \<open>Errno\<close> is \<open>syscall.Errno\<close>, \<open>ErrNotExist\<close> is \<open>os.ErrNotExist\<close>,
  \<open>PathError\<close> is \<open>*os.PathError\<close>,
  \<open>Wrap outer inner\<close> is \<open>errwrap.Wrap(outer, inner)\<close>; the other constructors are the
  messages built by \<open>fmt.Errorf\<close> and \<open>errors.New\<close> in this package, with the value
  formatted into the message as argument. \<open>OtherError\<close> stands for any other error
  the runtime reports (a read error of a \<open>bufio.Scanner\<close>, for instance).
\<close>

datatype error =
    Errno nat
  | ErrNotExist
  | PathError string string error
  | OtherError string
  | Wrap error error
  | CpuLimitExceedsMaxMilliValue string
  | ErrorParsingProcCgroups
  | ErrorOpeningProcSelfCgroup
  | ErrorParsingProcSelfCgroup
  | ControllerNotFound string
  | ErrorMounting string
  | ErrorBindMounting string
  | ErrorRemountingRO string
  | ErrorCreatingSymlink

definition EBUSY :: nat where "EBUSY = 16"
definition ENOENT :: nat where "ENOENT = 2"

section \<open>Isolators\<close>

text \<open>
  \<open>resource.Quantity\<close> belongs to the Kubernetes library, not to this repository. The
  package observes a quantity through three methods only, so a quantity is modelled
  by what they return: \<open>Value()\<close> (the amount in whole units, rounded up, an
  \<open>int64\<close>), \<open>MilliValue()\<close> (the amount in thousandths, an \<open>int64\<close>) and \<open>String()\<close>.
  \<open>resource.MaxMilliValue\<close> is the library's constant \<open>int64(((1 << 63) - 1) / 1000)\<close>.
\<close>

record Quantity =
  Value :: "64 word"
  MilliValue :: "64 word"
  String :: string

definition MaxMilliValue :: int where
  "MaxMilliValue = (2 ^ 63 - 1) div 1000"

record UnitOption =
  Section :: string
  Name :: string
  OptValue :: string

definition NewUnitOption :: "string \<Rightarrow> string \<Rightarrow> string \<Rightarrow> UnitOption" where
  "NewUnitOption section name val = \<lparr>Section = section, Name = name, OptValue = val\<rparr>"

type_synonym addIsolatorFunc = "UnitOption list \<Rightarrow> Quantity \<Rightarrow> error + UnitOption list"

definition addCpuLimit :: addIsolatorFunc where
  "addCpuLimit opts limit =
     (if sint (Value limit) > MaxMilliValue
      then Inl (CpuLimitExceedsMaxMilliValue (String limit))
      else
        let quota = Itoa (sint (MilliValue limit) sdiv 10) @ ''%''
        in Inr (opts @ [NewUnitOption ''Service'' ''CPUQuota'' quota]))"

definition addMemoryLimit :: addIsolatorFunc where
  "addMemoryLimit opts limit =
     Inr (opts @ [NewUnitOption ''Service'' ''MemoryLimit'' (Itoa (sint (Value limit)))])"

text \<open>The package-level map \<open>isolatorFuncs\<close>: two keys.\<close>

definition isolatorFuncs :: "string \<rightharpoonup> addIsolatorFunc" where
  "isolatorFuncs = [''cpu'' \<mapsto> addCpuLimit, ''memory'' \<mapsto> addMemoryLimit]"

text \<open>
  A file as a \<open>bufio.Scanner\<close> delivers it: either \<open>os.Open\<close> fails, or the scanner
  yields the lines in order and then stops, with the error \<open>Err()\<close> reports
  (\<open>None\<close> at a clean end of file).
\<close>

datatype scanned_file = OpenFails error | Opened "string list" "error option"

text \<open>The loop \<open>for sc.Scan() { if strings.HasPrefix(sc.Text(), isolator) ... }\<close>.\<close>

fun scan_HasPrefix :: "string list \<Rightarrow> string \<Rightarrow> bool" where
  "scan_HasPrefix [] isolator = False"
| "scan_HasPrefix (l # ls) isolator =
     (if strings_HasPrefix l isolator then True else scan_HasPrefix ls isolator)"

text \<open>\<open>IsIsolatorSupported\<close>, reading \<open>/proc/cgroups\<close>: the first \<open>sc.Scan()\<close> drops one
  line.\<close>

definition IsIsolatorSupported :: "scanned_file \<Rightarrow> string \<Rightarrow> error + bool" where
  "IsIsolatorSupported procCgroupFile isolator =
     (case procCgroupFile of
        OpenFails err \<Rightarrow> Inl err
      | Opened lines scanErr \<Rightarrow>
          if scan_HasPrefix (drop 1 lines) isolator then Inr True
          else (case scanErr of Some err \<Rightarrow> Inl err | None \<Rightarrow> Inr False))"

text \<open>
  A call either returns or panics: calling the nil function that a map of functions
  yields for a missing key is a run-time panic (nil pointer dereference).
\<close>

datatype 'a outcome = Returns 'a | Panics

definition warning_unsupported :: "string \<Rightarrow> string" where
  "warning_unsupported isolator =
     ''warning: resource/'' @ isolator
       @ '' isolator set but support disabled in the kernel, skipping'' @ [CHR 0x0A]"

text \<open>\<open>MaybeAddIsolator\<close>: the result, and what was written to standard error.\<close>

definition MaybeAddIsolator ::
  "scanned_file \<Rightarrow> UnitOption list \<Rightarrow> string \<Rightarrow> Quantity option
     \<Rightarrow> (error + UnitOption list) outcome \<times> string list" where
  "MaybeAddIsolator procCgroupFile opts isolator limit =
     (case limit of
        None \<Rightarrow> (Returns (Inr opts), [])
      | Some q \<Rightarrow>
          (case IsIsolatorSupported procCgroupFile isolator of
             Inl err \<Rightarrow> (Returns (Inl err), [])
           | Inr isSupported \<Rightarrow>
               if isSupported then
                 (case isolatorFuncs isolator of
                    None \<Rightarrow> (Panics, [])
                  | Some f \<Rightarrow> (Returns (f opts q), []))
               else (Returns (Inr opts), [warning_unsupported isolator])))"

section \<open>Controller inventory\<close>

subsection \<open>fmt.Sscanf with the format "%s %d %d %d"\<close>

text \<open>
  The scanning rules of package \<open>fmt\<close> (as of Go 1.6) on one line of text, which holds
  no line feed since \<open>bufio.Scanner\<close> splits at line feeds. Every verb first skips
  white space and fails at the end of the input. \<open>%s\<close> takes the run of characters up
  to the next white space. \<open>%d\<close> takes an optional sign and a non-empty run of decimal
  digits, and fails when the number does not fit an \<open>int\<close>. A space in the format
  matches one or more spaces of the input, or its end. Each function returns the
  value and the rest of the input, or \<open>None\<close> when the scan fails.
\<close>

definition skipSpace :: "string \<Rightarrow> string" where
  "skipSpace s = dropWhile isSpace s"

definition scan_string :: "string \<Rightarrow> (string \<times> string) option" where
  "scan_string s =
     (let r = skipSpace s
      in if r = [] then None
         else Some (takeWhile (\<lambda>c. \<not> isSpace c) r, dropWhile (\<lambda>c. \<not> isSpace c) r))"

definition scan_space :: "string \<Rightarrow> string option" where
  "scan_space s =
     (case s of
        [] \<Rightarrow> Some []
      | c # r \<Rightarrow> if isSpace c then Some (skipSpace r) else None)"

definition scan_int :: "string \<Rightarrow> (int \<times> string) option" where
  "scan_int s =
     (case skipSpace s of
        [] \<Rightarrow> None
      | c # r \<Rightarrow>
          let r1 = (if c = CHR ''-'' \<or> c = CHR ''+'' then r else c # r);
              ds = takeWhile isDigit r1;
              v = (if c = CHR ''-'' then - int (digits_val ds) else int (digits_val ds))
          in if ds = [] \<or> v < - (2 ^ 63) \<or> 2 ^ 63 - 1 < v then None
             else Some (v, dropWhile isDigit r1))"

text \<open>
  \<open>fmt.Sscanf(text, "%s %d %d %d", &controller, &hierarchy, &num, &enabled)\<close> with
  the four variables zero before the call and the error ignored, as \<open>parseLegacyCgroups\<close>
  calls it: a variable keeps its zero value when its verb is not reached or fails.
\<close>

definition Sscanf_row :: "string \<Rightarrow> string \<times> int \<times> int \<times> int" where
  "Sscanf_row text =
     (case scan_string text of
        None \<Rightarrow> ([], 0, 0, 0)
      | Some (controller, r1) \<Rightarrow>
          (case Option.bind (scan_space r1) scan_int of
             None \<Rightarrow> (controller, 0, 0, 0)
           | Some (hierarchy, r2) \<Rightarrow>
               (case Option.bind (scan_space r2) scan_int of
                  None \<Rightarrow> (controller, hierarchy, 0, 0)
                | Some (num, r3) \<Rightarrow>
                    (case Option.bind (scan_space r3) scan_int of
                       None \<Rightarrow> (controller, hierarchy, num, 0)
                     | Some (enabled, r4) \<Rightarrow> (controller, hierarchy, num, enabled)))))"

subsection \<open>parseLegacyCgroups\<close>

text \<open>The loop \<open>for sc.Scan() { ... }\<close> of \<open>parseLegacyCgroups\<close> over the remaining lines,
  updating the Go map \<open>cgroups\<close>.\<close>

fun scan_rows :: "string list \<Rightarrow> (int \<rightharpoonup> string list) \<Rightarrow> (int \<rightharpoonup> string list)" where
  "scan_rows [] cgroups = cgroups"
| "scan_rows (text # rest) cgroups =
     (case Sscanf_row text of
        (controller, hierarchy, num, enabled) \<Rightarrow>
          if enabled = 1 then
            (case cgroups hierarchy of
               None \<Rightarrow> scan_rows rest (cgroups(hierarchy \<mapsto> [controller]))
             | Some cs \<Rightarrow> scan_rows rest (cgroups(hierarchy \<mapsto> cs @ [controller])))
          else scan_rows rest cgroups)"

text \<open>\<open>parseLegacyCgroups\<close> on a reader that yields \<open>lines\<close> and then stops with
  \<open>scanErr\<close>. The \<open>sc.Scan()\<close> before the loop drops one line.\<close>

definition parseLegacyCgroups ::
  "string list \<Rightarrow> error option \<Rightarrow> error + (int \<rightharpoonup> string list)" where
  "parseLegacyCgroups lines scanErr =
     (let cgroups = scan_rows (drop 1 lines) Map.empty
      in case scanErr of Some err \<Rightarrow> Inl err | None \<Rightarrow> Inr cgroups)"

definition GetEnabledLegacyCgroups :: "scanned_file \<Rightarrow> error + (int \<rightharpoonup> string list)" where
  "GetEnabledLegacyCgroups cgroupsFile =
     (case cgroupsFile of
        OpenFails err \<Rightarrow> Inl err
      | Opened lines scanErr \<Rightarrow>
          (case parseLegacyCgroups lines scanErr of
             Inl err \<Rightarrow> Inl (Wrap ErrorParsingProcCgroups err)
           | Inr cgroups \<Rightarrow> Inr cgroups))"

text \<open>The rows the inventory is about: every line after the first, as \<open>Sscanf\<close> reads
  it; the enabled ones; and the controller names of the enabled rows of one
  hierarchy, in the order of the file.\<close>

definition rows_of :: "string list \<Rightarrow> (string \<times> int \<times> int \<times> int) list" where
  "rows_of lines = map Sscanf_row (drop 1 lines)"

definition enabled_rows :: "string list \<Rightarrow> (string \<times> int \<times> int \<times> int) list" where
  "enabled_rows lines = filter (\<lambda>(controller, hierarchy, num, enabled). enabled = 1) (rows_of lines)"

definition group_of :: "(string \<times> int \<times> int \<times> int) list \<Rightarrow> int \<Rightarrow> string list" where
  "group_of rows h =
     map fst (filter (\<lambda>(controller, hierarchy, num, enabled). enabled = 1 \<and> hierarchy = h) rows)"

subsection \<open>Directory names and whitelists\<close>

text \<open>
  A Go map is ranged over in an unspecified order. Where a function ranges over
  \<open>enabledCgroups\<close>, the map is given as the list of its entries in the order the
  \<open>range\<close> statement visits them; the theorems hold for every such list.
\<close>

definition GetLegacyControllerDirs :: "(int \<times> string list) list \<Rightarrow> string list" where
  "GetLegacyControllerDirs cgroups = map (\<lambda>(h, cs). strings_Join cs '','') cgroups"

definition legacyCgroupControllerRWFiles :: "string \<rightharpoonup> string list" where
  "legacyCgroupControllerRWFiles =
     [''memory'' \<mapsto> [''memory.limit_in_bytes''],
      ''cpu'' \<mapsto> [''cpu.cfs_quota_us''],
      ''devices'' \<mapsto> [''devices.allow'', ''devices.deny'']]"


text \<open>The loop \<open>for _, p := range parts\<close> of \<open>getLegacyControllerRWFiles\<close>; the result
  \<open>nil\<close> is the empty list.\<close>

fun range_parts :: "string list \<Rightarrow> string list" where
  "range_parts [] = []"
| "range_parts (p # parts) =
     (case legacyCgroupControllerRWFiles p of
        Some files \<Rightarrow> files @ [''cgroup.procs'']
      | None \<Rightarrow> range_parts parts)"

definition getLegacyControllerRWFiles :: "string \<Rightarrow> string list" where
  "getLegacyControllerRWFiles controller = range_parts (strings_Split controller CHR '','')"


section \<open>Path resolver\<close>

text \<open>The loop \<open>for s.Scan() { ... }\<close> of \<open>parseLegacyCgroupController\<close>. The error of the
  scanner is never read there.\<close>

fun scan_controller :: "string list \<Rightarrow> string \<Rightarrow> error + string list" where
  "scan_controller [] controller = Inl (ControllerNotFound controller)"
| "scan_controller (text # rest) controller =
     (let parts = strings_SplitN text CHR '':'' 3
      in if length parts < 3 then Inl ErrorParsingProcSelfCgroup
         else
           let controllerParts = strings_Split (parts ! 1) CHR '',''
           in if controller \<in> set controllerParts then Inr parts
              else scan_controller rest controller)"

definition parseLegacyCgroupController :: "scanned_file \<Rightarrow> string \<Rightarrow> error + string list" where
  "parseLegacyCgroupController cg controller =
     (case cg of
        OpenFails err \<Rightarrow> Inl (Wrap ErrorOpeningProcSelfCgroup err)
      | Opened lines scanErr \<Rightarrow> scan_controller lines controller)"

text \<open>\<open>GetLegacyCgroupPathByPid\<close>; \<open>openFile\<close> is the file system, giving for a path what
  \<open>os.Open\<close> and the scanner deliver.\<close>

definition GetLegacyCgroupPathByPid ::
  "(string \<Rightarrow> scanned_file) \<Rightarrow> int \<Rightarrow> string \<Rightarrow> error + string" where
  "GetLegacyCgroupPathByPid openFile pid controller =
     (case parseLegacyCgroupController (openFile (''/proc/'' @ Itoa pid @ ''/cgroup'')) controller of
        Inl err \<Rightarrow> Inl err
      | Inr parts \<Rightarrow> Inr (parts ! 2))"

definition GetOwnLegacyCgroupPath :: "(string \<Rightarrow> scanned_file) \<Rightarrow> string \<Rightarrow> error + string" where
  "GetOwnLegacyCgroupPath openFile controller =
     (case parseLegacyCgroupController (openFile ''/proc/self/cgroup'') controller of
        Inl err \<Rightarrow> Inl err
      | Inr parts \<Rightarrow> Inr (parts ! 2))"

text \<open>What the claims say of one line of \<open>/proc/<pid>/cgroup\<close>: it has three fields, and
  its controller list names the controller.\<close>

definition three_fields :: "string \<Rightarrow> bool" where
  "three_fields text = (length (strings_SplitN text CHR '':'' 3) = 3)"

definition lists_controller :: "string \<Rightarrow> string \<Rightarrow> bool" where
  "lists_controller controller text =
     (three_fields text
      \<and> controller \<in> set (strings_Split (strings_SplitN text CHR '':'' 3 ! 1) CHR '',''))"

section \<open>The operating system\<close>

text \<open>
  The calls the package makes into the operating system, with their arguments:
  \<open>os.MkdirAll(path, perm)\<close>, \<open>syscall.Mount(source, target, fstype, flags, data)\<close>,
  \<open>os.Stat(path)\<close>, \<open>ioutil.ReadFile(path)\<close>, \<open>ioutil.WriteFile(path, data, perm)\<close>
  and \<open>os.Symlink(oldname, newname)\<close>.
\<close>

datatype oscall =
    MkdirAll string nat
  | Mount string string string "64 word" string
  | Stat string
  | ReadFile string
  | WriteFile string string nat
  | Symlink string string

text \<open>
  The operating system is a parameter: a function that takes its state and a call and
  gives the reply (the error, \<open>None\<close> on success, and the data read, used by \<open>ReadFile\<close>
  only) and its next state. Nothing is assumed about it, so every theorem holds
  whichever calls fail. A run carries the state of the operating system and the list
  of the calls made so far, oldest first.
\<close>

type_synonym reply = "error option \<times> string"
type_synonym 'w kernel = "'w \<Rightarrow> oscall \<Rightarrow> reply \<times> 'w"
type_synonym 'w run = "'w \<times> oscall list"

definition call :: "'w kernel \<Rightarrow> oscall \<Rightarrow> 'w run \<Rightarrow> reply \<times> 'w run" where
  "call k c s = (case k (fst s) c of (r, w) \<Rightarrow> (r, (w, snd s @ [c])))"

text \<open>\<open>os.IsNotExist\<close>: the error, or the error inside a \<open>PathError\<close>, is \<open>ENOENT\<close> or
  \<open>os.ErrNotExist\<close>.\<close>

definition os_IsNotExist :: "error option \<Rightarrow> bool" where
  "os_IsNotExist err =
     (case err of
        None \<Rightarrow> False
      | Some (PathError opn path e) \<Rightarrow> e = Errno ENOENT \<or> e = ErrNotExist
      | Some e \<Rightarrow> e = Errno ENOENT \<or> e = ErrNotExist)"

text \<open>Mount flags of \<open>syscall\<close> on Linux, and file modes.\<close>

definition MS_RDONLY :: "64 word" where "MS_RDONLY = 0x1"
definition MS_NOSUID :: "64 word" where "MS_NOSUID = 0x2"
definition MS_NODEV :: "64 word" where "MS_NODEV = 0x4"
definition MS_NOEXEC :: "64 word" where "MS_NOEXEC = 0x8"
definition MS_REMOUNT :: "64 word" where "MS_REMOUNT = 0x20"
definition MS_BIND :: "64 word" where "MS_BIND = 0x1000"
definition MS_STRICTATIME :: "64 word" where "MS_STRICTATIME = 0x1000000"

definition mode_0700 :: nat where "mode_0700 = 448"
definition mode_0755 :: nat where "mode_0755 = 493"
definition mode_0644 :: nat where "mode_0644 = 420"

section \<open>Hierarchy builder\<close>

definition mountFsRO :: "'w kernel \<Rightarrow> string \<Rightarrow> 'w run \<Rightarrow> error option \<times> 'w run" where
  "mountFsRO k mountPoint s =
     (let flags = MS_BIND OR MS_REMOUNT OR MS_NOSUID OR MS_NOEXEC OR MS_NODEV OR MS_RDONLY
      in case call k (Mount mountPoint mountPoint [] flags []) s of
           ((Some err, d), s1) \<Rightarrow> (Some (Wrap (ErrorRemountingRO mountPoint) err), s1)
         | ((None, d), s1) \<Rightarrow> (None, s1))"

text \<open>
  \<open>getLegacyControllerSymlinks\<close> builds a Go map from link name to target. It is
  modelled as an association list with the map's update; \<open>CreateLegacyCgroups\<close> ranges
  over it in an order Go leaves open, here the order of the list.
\<close>

definition getLegacyControllerSymlinks :: "(int \<times> string list) list \<Rightarrow> (string \<times> string) list" where
  "getLegacyControllerSymlinks cgroups =
     foldl (\<lambda>symlinks (h, cs).
              if length cs > 1
              then foldl (\<lambda>m ln. AList.update ln (strings_Join cs '','') m) symlinks cs
              else symlinks)
       [] cgroups"

text \<open>The loop "Mount controllers" of \<open>CreateLegacyCgroups\<close>.\<close>

fun mount_controllers ::
  "'w kernel \<Rightarrow> string \<Rightarrow> string list \<Rightarrow> 'w run \<Rightarrow> error option \<times> 'w run" where
  "mount_controllers k root [] s = (None, s)"
| "mount_controllers k root (c # cs) s =
     (let cPath = filepath_Join [root, ''/sys/fs/cgroup'', c]
      in case call k (MkdirAll cPath mode_0700) s of
           ((Some err, d), s1) \<Rightarrow> (Some err, s1)
         | ((None, d), s1) \<Rightarrow>
             (let flags = MS_NOSUID OR MS_NOEXEC OR MS_NODEV
              in case call k (Mount ''cgroup'' cPath ''cgroup'' flags c) s1 of
                   ((Some err, d), s2) \<Rightarrow> (Some (Wrap (ErrorMounting cPath) err), s2)
                 | ((None, d), s2) \<Rightarrow> mount_controllers k root cs s2))"

text \<open>The loop "Create symlinks for combined controllers".\<close>

fun make_symlinks ::
  "'w kernel \<Rightarrow> string \<Rightarrow> (string \<times> string) list \<Rightarrow> 'w run \<Rightarrow> error option \<times> 'w run" where
  "make_symlinks k cgroupTmpfs [] s = (None, s)"
| "make_symlinks k cgroupTmpfs ((ln, tgt) # symlinks) s =
     (let lnPath = filepath_Join [cgroupTmpfs, ln]
      in case call k (Symlink tgt lnPath) s of
           ((Some err, d), s1) \<Rightarrow> (Some (Wrap ErrorCreatingSymlink err), s1)
         | ((None, d), s1) \<Rightarrow> make_symlinks k cgroupTmpfs symlinks s1)"

text \<open>\<open>CreateLegacyCgroups\<close> from the mount of the tmpfs on: what follows the mount of
  sysfs when that mount is not fatal.\<close>

definition CreateLegacyCgroups_tmpfs ::
  "'w kernel \<Rightarrow> string \<Rightarrow> (int \<times> string list) list \<Rightarrow> string \<Rightarrow> 'w run
     \<Rightarrow> error option \<times> 'w run" where
  "CreateLegacyCgroups_tmpfs k root enabledCgroups mountContext s =
     (let controllers = GetLegacyControllerDirs enabledCgroups;
          cgroupTmpfs = filepath_Join [root, ''/sys/fs/cgroup'']
      in case call k (MkdirAll cgroupTmpfs mode_0700) s of
           ((Some err, d), s1) \<Rightarrow> (Some err, s1)
         | ((None, d), s1) \<Rightarrow>
             (let flags = MS_NOSUID OR MS_NOEXEC OR MS_NODEV OR MS_STRICTATIME;
                  options = (if mountContext \<noteq> []
                             then ''mode=755,context='' @ [CHR 0x22] @ mountContext @ [CHR 0x22]
                             else ''mode=755'')
              in case call k (Mount ''tmpfs'' cgroupTmpfs ''tmpfs'' flags options) s1 of
                   ((Some err, d), s2) \<Rightarrow> (Some (Wrap (ErrorMounting cgroupTmpfs) err), s2)
                 | ((None, d), s2) \<Rightarrow>
                     (case mount_controllers k root controllers s2 of
                        (Some err, s3) \<Rightarrow> (Some err, s3)
                      | (None, s3) \<Rightarrow>
                          (case make_symlinks k cgroupTmpfs
                                  (getLegacyControllerSymlinks enabledCgroups) s3 of
                             (Some err, s4) \<Rightarrow> (Some err, s4)
                           | (None, s4) \<Rightarrow>
                               (let systemdControllerPath =
                                      filepath_Join [root, ''/sys/fs/cgroup/systemd'']
                                in case call k (MkdirAll systemdControllerPath mode_0700) s4 of
                                     ((Some err, d), s5) \<Rightarrow> (Some err, s5)
                                   | ((None, d), s5) \<Rightarrow> mountFsRO k cgroupTmpfs s5)))))"

text \<open>\<open>CreateLegacyCgroups\<close>: an error of the mount of sysfs is fatal unless it is
  \<open>syscall.EBUSY\<close>.\<close>

definition CreateLegacyCgroups ::
  "'w kernel \<Rightarrow> string \<Rightarrow> (int \<times> string list) list \<Rightarrow> string \<Rightarrow> 'w run
     \<Rightarrow> error option \<times> 'w run" where
  "CreateLegacyCgroups k root enabledCgroups mountContext s =
     (let sys = filepath_Join [root, ''/sys'']
      in case call k (MkdirAll sys mode_0700) s of
           ((Some err, d), s1) \<Rightarrow> (Some err, s1)
         | ((None, d), s1) \<Rightarrow>
             (let flags = MS_NOSUID OR MS_NOEXEC OR MS_NODEV
              in case call k (Mount ''sysfs'' sys ''sysfs'' flags []) s1 of
                   ((Some err, d), s2) \<Rightarrow>
                     if err \<noteq> Errno EBUSY then (Some (Wrap (ErrorMounting sys) err), s2)
                     else CreateLegacyCgroups_tmpfs k root enabledCgroups mountContext s2
                 | ((None, d), s2) \<Rightarrow>
                     CreateLegacyCgroups_tmpfs k root enabledCgroups mountContext s2))"

text \<open>\<open>CreateCgroups\<close>, the unified hierarchy: every error of the mount of sysfs is
  fatal.\<close>

definition CreateCgroups :: "'w kernel \<Rightarrow> string \<Rightarrow> 'w run \<Rightarrow> error option \<times> 'w run" where
  "CreateCgroups k root s =
     (let sys = filepath_Join [root, ''/sys'']
      in case call k (MkdirAll sys mode_0700) s of
           ((Some err, d), s1) \<Rightarrow> (Some err, s1)
         | ((None, d), s1) \<Rightarrow>
             (let flags = MS_NOSUID OR MS_NOEXEC OR MS_NODEV
              in case call k (Mount ''sysfs'' sys ''sysfs'' flags []) s1 of
                   ((Some err, d), s2) \<Rightarrow> (Some (Wrap (ErrorMounting sys) err), s2)
                 | ((None, d), s2) \<Rightarrow>
                     (let cgroupFs = filepath_Join [root, ''/sys/fs/cgroup'']
                      in case call k (MkdirAll cgroupFs mode_0700) s2 of
                           ((Some err, d), s3) \<Rightarrow> (Some err, s3)
                         | ((None, d), s3) \<Rightarrow>
                             (let flags = MS_NOSUID OR MS_NOEXEC OR MS_NODEV OR MS_STRICTATIME
                              in case call k (Mount ''cgroup2'' cgroupFs ''cgroup2'' flags []) s3 of
                                   ((Some err, d), s4) \<Rightarrow>
                                     (Some (Wrap (ErrorMounting cgroupFs) err), s4)
                                 | ((None, d), s4) \<Rightarrow>
                                     (let machinePath =
                                            filepath_Join [root, ''/sys/fs/cgroup/machine.slice'']
                                      in case call k (MkdirAll machinePath mode_0700) s4 of
                                           ((Some err, d), s5) \<Rightarrow> (Some err, s5)
                                         | ((None, d), s5) \<Rightarrow> (None, s5))))))"

section \<open>Lockdown sequencer\<close>

text \<open>The loop over the knobs in \<open>fixCpusetKnobs\<close>; every error is ignored.\<close>

fun fix_knobs :: "'w kernel \<Rightarrow> string \<Rightarrow> string list \<Rightarrow> 'w run \<Rightarrow> 'w run" where
  "fix_knobs k cgroupPathFix [] s = s"
| "fix_knobs k cgroupPathFix (knob # knobs) s =
     (let parentFile = filepath_Join [filepath_Dir cgroupPathFix, knob];
          childFile = filepath_Join [cgroupPathFix, knob]
      in case call k (ReadFile childFile) s of
           ((Some err, d), s1) \<Rightarrow> fix_knobs k cgroupPathFix knobs s1
         | ((None, childData), s1) \<Rightarrow>
             if TrimSpace_nonempty childData then fix_knobs k cgroupPathFix knobs s1
             else
               (case call k (ReadFile parentFile) s1 of
                  ((Some err, d), s2) \<Rightarrow> fix_knobs k cgroupPathFix knobs s2
                | ((None, parentData), s2) \<Rightarrow>
                    (case call k (WriteFile childFile parentData mode_0644) s2 of
                       (r3, s3) \<Rightarrow>
                         (case call k (WriteFile childFile parentData mode_0644) s3 of
                            (r4, s4) \<Rightarrow> fix_knobs k cgroupPathFix knobs s4))))"

definition fixCpusetKnobs :: "'w kernel \<Rightarrow> string \<Rightarrow> 'w run \<Rightarrow> 'w run" where
  "fixCpusetKnobs k cpusetPath s =
     (let cgroupPathFix = filepath_Join [cpusetPath, ''system.slice'']
      in case call k (MkdirAll cgroupPathFix mode_0755) s of
           (r, s1) \<Rightarrow> fix_knobs k cgroupPathFix [''cpuset.mems'', ''cpuset.cpus''] s1)"

text \<open>The innermost loop of \<open>RemountLegacyCgroupsRO\<close>, over the whitelist of one
  controller in the cgroup of one service.\<close>

fun bind_files ::
  "'w kernel \<Rightarrow> string \<Rightarrow> string list \<Rightarrow> 'w run \<Rightarrow> error option \<times> 'w run" where
  "bind_files k appCgroup [] s = (None, s)"
| "bind_files k appCgroup (f # fs) s =
     (let cgroupFilePath = filepath_Join [appCgroup, f]
      in case call k (Stat cgroupFilePath) s of
           ((err, d), s1) \<Rightarrow>
             if os_IsNotExist err then bind_files k appCgroup fs s1
             else
               (case call k (Mount cgroupFilePath cgroupFilePath [] MS_BIND []) s1 of
                  ((Some merr, d), s2) \<Rightarrow>
                    (Some (Wrap (ErrorBindMounting cgroupFilePath) merr), s2)
                | ((None, d), s2) \<Rightarrow> bind_files k appCgroup fs s2))"

text \<open>The loop over the service names.\<close>

fun bind_services ::
  "'w kernel \<Rightarrow> string \<Rightarrow> string \<Rightarrow> string list \<Rightarrow> 'w run \<Rightarrow> error option \<times> 'w run" where
  "bind_services k subcgroupPath c [] s = (None, s)"
| "bind_services k subcgroupPath c (serviceName # serviceNames) s =
     (let appCgroup = filepath_Join [subcgroupPath, serviceName]
      in case call k (MkdirAll appCgroup mode_0755) s of
           ((Some err, d), s1) \<Rightarrow> (Some err, s1)
         | ((None, d), s1) \<Rightarrow>
             (case bind_files k appCgroup (getLegacyControllerRWFiles c) s1 of
                (Some err, s2) \<Rightarrow> (Some err, s2)
              | (None, s2) \<Rightarrow> bind_services k subcgroupPath c serviceNames s2))"

text \<open>The loop over the controller directories.\<close>

fun remount_controllers ::
  "'w kernel \<Rightarrow> string \<Rightarrow> string \<Rightarrow> string list \<Rightarrow> string list \<Rightarrow> 'w run
     \<Rightarrow> error option \<times> 'w run" where
  "remount_controllers k cgroupTmpfs subcgroup serviceNames [] s = (None, s)"
| "remount_controllers k cgroupTmpfs subcgroup serviceNames (c # controllers) s =
     (let cPath = filepath_Join [cgroupTmpfs, c];
          subcgroupPath = filepath_Join [cPath, subcgroup, ''system.slice''];
          s0 = (if c = ''cpuset'' then fixCpusetKnobs k cPath s else s)
      in case bind_services k subcgroupPath c serviceNames s0 of
           (Some err, s1) \<Rightarrow> (Some err, s1)
         | (None, s1) \<Rightarrow>
             (case mountFsRO k cPath s1 of
                (Some err, s2) \<Rightarrow> (Some err, s2)
              | (None, s2) \<Rightarrow>
                  remount_controllers k cgroupTmpfs subcgroup serviceNames controllers s2))"

definition RemountLegacyCgroupsRO ::
  "'w kernel \<Rightarrow> string \<Rightarrow> (int \<times> string list) list \<Rightarrow> string \<Rightarrow> string list \<Rightarrow> 'w run
     \<Rightarrow> error option \<times> 'w run" where
  "RemountLegacyCgroupsRO k root enabledCgroups subcgroup serviceNames s =
     (let controllers = GetLegacyControllerDirs enabledCgroups;
          cgroupTmpfs = filepath_Join [root, ''/sys/fs/cgroup''];
          sysPath = filepath_Join [root, ''/sys'']
      in case remount_controllers k cgroupTmpfs subcgroup serviceNames controllers s of
           (Some err, s1) \<Rightarrow> (Some err, s1)
         | (None, s1) \<Rightarrow> mountFsRO k sysPath s1)"


text \<open>
  The two mount calls of the lockdown: the bind-mount of a path onto itself, and the
  read-only remount of a mount point.
\<close>

definition bind_mount :: "string \<Rightarrow> oscall" where
  "bind_mount path = Mount path path [] MS_BIND []"

definition remount_ro :: "string \<Rightarrow> oscall" where
  "remount_ro mountPoint =
     Mount mountPoint mountPoint []
       (MS_BIND OR MS_REMOUNT OR MS_NOSUID OR MS_NOEXEC OR MS_NODEV OR MS_RDONLY) []"

text \<open>The mount point of a controller directory, and the files of its whitelist in the
  cgroups of the services, as \<open>RemountLegacyCgroupsRO\<close> computes the paths.\<close>

definition controller_path :: "string \<Rightarrow> string \<Rightarrow> string" where
  "controller_path root c = filepath_Join [filepath_Join [root, ''/sys/fs/cgroup''], c]"

definition whitelist_paths :: "string \<Rightarrow> string \<Rightarrow> string list \<Rightarrow> string \<Rightarrow> string list" where
  "whitelist_paths root subcgroup serviceNames c =
     concat (map (\<lambda>serviceName.
                    map (\<lambda>f. filepath_Join
                               [filepath_Join
                                  [filepath_Join [controller_path root c, subcgroup, ''system.slice''],
                                   serviceName], f])
                      (getLegacyControllerRWFiles c))
               serviceNames)"

text \<open>The calls made before and after the first occurrence of a call in a list of
  calls.\<close>

definition calls_before :: "oscall \<Rightarrow> oscall list \<Rightarrow> oscall list" where
  "calls_before c t = takeWhile (\<lambda>x. x \<noteq> c) t"

definition calls_after :: "oscall \<Rightarrow> oscall list \<Rightarrow> oscall list" where
  "calls_after c t = drop 1 (dropWhile (\<lambda>x. x \<noteq> c) t)"

definition is_mount :: "oscall \<Rightarrow> bool" where
  "is_mount c = (case c of Mount source target fstype flags data \<Rightarrow> True | _ \<Rightarrow> False)"

text \<open>
  A run \<open>s'\<close> continues a run \<open>s\<close> with calls that all satisfy \<open>P\<close>; and a call that, when
  it is a mount, is the bind-mount onto itself of a path of \<open>S\<close>.
\<close>

definition continues :: "(oscall \<Rightarrow> bool) \<Rightarrow> 'w run \<Rightarrow> 'w run \<Rightarrow> bool" where
  "continues P s s' = (\<exists>es. snd s' = snd s @ es \<and> (\<forall>e \<in> set es. P e))"

definition only_binds :: "string set \<Rightarrow> oscall \<Rightarrow> bool" where
  "only_binds S e = (is_mount e \<longrightarrow> e \<in> bind_mount ` S)"

text \<open>
  The controller directories do not alias: their mount points are pairwise distinct
  paths, and a path that is a whitelist file of two directories belongs to one mount
  point.
\<close>

definition no_aliasing :: "string \<Rightarrow> string \<Rightarrow> string list \<Rightarrow> string list \<Rightarrow> bool" where
  "no_aliasing root subcgroup serviceNames controllers =
     (distinct (map (controller_path root) controllers)
      \<and> (\<forall>c \<in> set controllers. \<forall>c' \<in> set controllers.
            set (whitelist_paths root subcgroup serviceNames c)
              \<inter> set (whitelist_paths root subcgroup serviceNames c') \<noteq> {}
            \<longrightarrow> controller_path root c = controller_path root c'))"

text \<open>An operating system in which every call succeeds and every file exists.\<close>

definition kernel_ok :: "unit kernel" where
  "kernel_ok w c = ((None, []), ())"

text \<open>An operating system in which sysfs is already mounted: mounting it again fails
  with \<open>EBUSY\<close>; every other call succeeds.\<close>

definition kernel_sysfs_busy :: "unit kernel" where
  "kernel_sysfs_busy w c =
     (case c of
        Mount source target fstype flags data \<Rightarrow>
          if fstype = ''sysfs'' then ((Some (Errno EBUSY), []), ()) else ((None, []), ())
      | _ \<Rightarrow> ((None, []), ()))"

section \<open>Fixtures\<close>

text \<open>A \<open>/proc/cgroups\<close> as the kernel prints it: a header line, then one
  tab-separated row per controller.\<close>

definition tabbed :: "string list \<Rightarrow> string" where
  "tabbed cols = strings_Join cols [CHR 0x09]"

definition proc_cgroups_fixture :: "string list" where
  "proc_cgroups_fixture =
     [tabbed [''#subsys_name'', ''hierarchy'', ''num_cgroups'', ''enabled''],
      tabbed [''cpuset'', ''3'', ''1'', ''1''],
      tabbed [''cpu'', ''2'', ''5'', ''1''],
      tabbed [''cpuacct'', ''2'', ''5'', ''1''],
      tabbed [''memory'', ''0'', ''1'', ''0''],
      tabbed [''devices'', ''4'', ''7'', ''1''],
      tabbed [''pids'', ''5'', ''9'', ''1'']]"

text \<open>A \<open>/proc\<close> that holds the cgroup file of process 1234 only.\<close>

definition proc_pid_cgroup_fixture :: "string \<Rightarrow> scanned_file" where
  "proc_pid_cgroup_fixture path =
     (if path = ''/proc/1234/cgroup''
      then Opened [''4:memory:/machine-slice/app1'', ''1:name=systemd:/user.slice''] None
      else OpenFails (PathError ''open'' path (Errno ENOENT)))"

text \<open>The enabled controllers of a host, by hierarchy.\<close>

definition legacy_groups_fixture :: "(int \<times> string list) list" where
  "legacy_groups_fixture = [(3, [''cpuset'']), (2, [''cpu'', ''cpuacct'']), (4, [''memory''])]"

section \<open>Facts about the library model\<close>

lemma nat_digits_small: "n < 10 \<Longrightarrow> nat_digits n = [digit_char n]"
  by (simp add: nat_digits.simps)

lemma nat_digits_big:
  "\<not> n < 10 \<Longrightarrow> nat_digits n = nat_digits (n div 10) @ [digit_char (n mod 10)]"
  by (subst nat_digits.simps) simp

lemmas Itoa_eval = Itoa_def nat_digits_small nat_digits_big digit_char_def

lemma MaxMilliValue_eq: "MaxMilliValue = 9223372036854775"
  by (simp add: MaxMilliValue_def)

lemma digit_char_val: "d < 10 \<Longrightarrow> digit_val (digit_char d) = d \<and> isDigit (digit_char d)"
proof -
  assume "d < 10"
  then consider "d = 0" | "d = 1" | "d = 2" | "d = 3" | "d = 4" | "d = 5" | "d = 6"
    | "d = 7" | "d = 8" | "d = 9"
    by atomize_elim arith
  then show ?thesis
    by cases (simp_all add: digit_char_def digit_val_def isDigit_def)
qed

lemma digits_val_snoc: "digits_val (ds @ [c]) = 10 * digits_val ds + digit_val c"
  by (simp add: digits_val_def)

lemma nat_digits_correct:
  "digits_val (nat_digits n) = n \<and> list_all isDigit (nat_digits n) \<and> nat_digits n \<noteq> []"
proof (induction n rule: nat_digits.induct)
  case (1 n)
  show ?case
  proof (cases "n < 10")
    case True
    then show ?thesis
      by (simp add: nat_digits_small digit_char_val digits_val_def)
  next
    case False
    have m: "n mod 10 < 10" by simp
    from False 1 have ih: "digits_val (nat_digits (n div 10)) = n div 10"
      "list_all isDigit (nat_digits (n div 10))" by simp_all
    from False show ?thesis
      by (simp add: nat_digits_big digits_val_snoc ih digit_char_val [OF m])
  qed
qed

lemma isDigit_not_minus: "isDigit c \<Longrightarrow> c \<noteq> CHR ''-''"
  by (auto simp: isDigit_def)

lemma decimal_val_Itoa: "decimal_val (Itoa i) = Some i"
proof (cases "i < 0")
  case True
  then show ?thesis
    using nat_digits_correct [of "nat (- i)"]
    by (simp add: decimal_val_def Itoa_def)
next
  case False
  obtain c ds where cd: "nat_digits (nat i) = c # ds"
    using nat_digits_correct [of "nat i"] by (cases "nat_digits (nat i)") auto
  have "isDigit c" using nat_digits_correct [of "nat i"] cd by simp
  then have "c \<noteq> CHR ''-''" by (rule isDigit_not_minus)
  then show ?thesis
    using False nat_digits_correct [of "nat i"] cd
    by (simp add: decimal_val_def Itoa_def)
qed

section \<open>Isolator translation\<close>

text \<open>
  Claim C4, as amended. \<open>addCpuLimit\<close> fails, with the error "cpu limit exceeds the
  maximum millivalue", exactly when the quantity's \<open>Value()\<close> (the amount in whole
  cores, not in millicores) exceeds \<open>resource.MaxMilliValue\<close>. Otherwise it appends
  the option \<open>CPUQuota\<close> whose value is the decimal numeral of \<open>MilliValue() / 10\<close>
  (Go's truncating division) followed by \<open>%\<close>. \<open>addMemoryLimit\<close> never fails and
  appends the option \<open>MemoryLimit\<close> whose value is the decimal numeral of \<open>Value()\<close>.
\<close>

theorem addCpuLimit_addMemoryLimit_translate:
  "((\<exists>e. addCpuLimit opts q = Inl e) \<longleftrightarrow> MaxMilliValue < sint (Value q))
   \<and> (MaxMilliValue < sint (Value q) \<longrightarrow>
        addCpuLimit opts q = Inl (CpuLimitExceedsMaxMilliValue (String q)))
   \<and> (sint (Value q) \<le> MaxMilliValue \<longrightarrow>
        (\<exists>s. addCpuLimit opts q
                = Inr (opts @ [\<lparr>Section = ''Service'', Name = ''CPUQuota'', OptValue = s @ ''%''\<rparr>])
           \<and> decimal_val s = Some (sint (MilliValue q) sdiv 10)))
   \<and> (\<exists>s. addMemoryLimit opts q
             = Inr (opts @ [\<lparr>Section = ''Service'', Name = ''MemoryLimit'', OptValue = s\<rparr>])
        \<and> decimal_val s = Some (sint (Value q)))"
  by (simp add: addCpuLimit_def addMemoryLimit_def NewUnitOption_def decimal_val_Itoa Let_def)

text \<open>At 500 millicores the option is \<open>50%\<close>; at 9223372036854776 cores the call
  fails; 134217728 bytes pass through as \<open>134217728\<close>.\<close>

theorem addCpuLimit_addMemoryLimit_translate_witness:
  "sint (Value \<lparr>Value = 1, MilliValue = 500, String = ''500m''\<rparr>) \<le> MaxMilliValue
   \<and> addCpuLimit [] \<lparr>Value = 1, MilliValue = 500, String = ''500m''\<rparr>
       = Inr [\<lparr>Section = ''Service'', Name = ''CPUQuota'', OptValue = ''50%''\<rparr>]
   \<and> MaxMilliValue < sint (Value \<lparr>Value = 9223372036854776, MilliValue = 0, String = ''9223372036854776''\<rparr>)
   \<and> addCpuLimit [] \<lparr>Value = 9223372036854776, MilliValue = 0, String = ''9223372036854776''\<rparr>
       = Inl (CpuLimitExceedsMaxMilliValue ''9223372036854776'')
   \<and> addMemoryLimit [] \<lparr>Value = 134217728, MilliValue = 134217728000, String = ''128Mi''\<rparr>
       = Inr [\<lparr>Section = ''Service'', Name = ''MemoryLimit'', OptValue = ''134217728''\<rparr>]"
  using addCpuLimit_addMemoryLimit_translate
          [of "[]" "\<lparr>Value = 1, MilliValue = 500, String = ''500m''\<rparr>"]
        addCpuLimit_addMemoryLimit_translate
          [of "[]" "\<lparr>Value = 9223372036854776, MilliValue = 0, String = ''9223372036854776''\<rparr>"]
  by (simp add: addCpuLimit_def addMemoryLimit_def NewUnitOption_def MaxMilliValue_eq Itoa_eval)

text \<open>
  Claim C4 as stated has the call fail exactly when the millicore value exceeds the
  maximum millivalue. A quantity of \<open>10\<^sup>1\<^sup>3\<close> cores has the millicore value
  \<open>10\<^sup>1\<^sup>6\<close>, above \<open>MaxMilliValue = 9223372036854775\<close>, and \<open>addCpuLimit\<close> accepts
  it. Nor is the test whether the millicore value fits an \<open>int64\<close>: the quantity
  \<open>9223372036854775500m\<close> has a millicore value below \<open>2\<^sup>6\<^sup>3\<close>, and \<open>addCpuLimit\<close>
  rejects it, because \<open>Value()\<close> rounds it up to 9223372036854776 cores.
\<close>

theorem addCpuLimit_error_not_by_MilliValue:
  "\<not> (\<forall>opts q. (\<exists>e. addCpuLimit opts q = Inl e) \<longleftrightarrow> MaxMilliValue < sint (MilliValue q))
   \<and> sint (MilliValue \<lparr>Value = 9223372036854776, MilliValue = 9223372036854775500,
                        String = ''9223372036854775500m''\<rparr>) < 2 ^ 63
   \<and> addCpuLimit []
        \<lparr>Value = 9223372036854776, MilliValue = 9223372036854775500,
           String = ''9223372036854775500m''\<rparr>
       = Inl (CpuLimitExceedsMaxMilliValue ''9223372036854775500m'')"
proof -
  have 1: "\<not> (\<forall>opts q. (\<exists>e. addCpuLimit opts q = Inl e) \<longleftrightarrow> MaxMilliValue < sint (MilliValue q))"
  proof
    assume a: "\<forall>opts q. (\<exists>e. addCpuLimit opts q = Inl e) \<longleftrightarrow> MaxMilliValue < sint (MilliValue q)"
    let ?q = "\<lparr>Value = 10000000000000, MilliValue = 10000000000000000, String = ''10T''\<rparr>"
    have "addCpuLimit [] ?q
            = Inr [\<lparr>Section = ''Service'', Name = ''CPUQuota'', OptValue = ''1000000000000000%''\<rparr>]"
      by (simp add: addCpuLimit_def NewUnitOption_def MaxMilliValue_eq Itoa_eval)
    moreover have "MaxMilliValue < sint (MilliValue ?q)"
      by (simp add: MaxMilliValue_eq)
    ultimately show False using a [rule_format, of "[]" ?q] by simp
  qed
  have 2: "sint (MilliValue \<lparr>Value = 9223372036854776, MilliValue = 9223372036854775500,
                        String = ''9223372036854775500m''\<rparr>) < 2 ^ 63"
    by simp
  have 3: "addCpuLimit []
        \<lparr>Value = 9223372036854776, MilliValue = 9223372036854775500,
           String = ''9223372036854775500m''\<rparr>
       = Inl (CpuLimitExceedsMaxMilliValue ''9223372036854775500m'')"
    by (simp add: addCpuLimit_def MaxMilliValue_eq)
  from 1 2 3 show ?thesis by blast
qed

section \<open>MaybeAddIsolator\<close>

text \<open>
  Claim C5. With a nil quantity \<open>MaybeAddIsolator\<close> returns the options it was given
  and no error, and writes nothing. When \<open>IsIsolatorSupported\<close> reports the isolator
  as unsupported it also returns the options it was given and no error; the only
  effect is the warning on standard error (written when the quantity is not nil).
\<close>

theorem MaybeAddIsolator_noop:
  "MaybeAddIsolator f opts isolator None = (Returns (Inr opts), [])
   \<and> (IsIsolatorSupported f isolator = Inr False \<longrightarrow>
        MaybeAddIsolator f opts isolator limit
          = (Returns (Inr opts), if limit = None then [] else [warning_unsupported isolator]))"
  by (simp add: MaybeAddIsolator_def split: option.splits)

text \<open>\<open>blkio\<close> is absent from the fixture: the options come back unchanged, with the
  warning.\<close>

theorem MaybeAddIsolator_noop_witness:
  "IsIsolatorSupported (Opened proc_cgroups_fixture None) ''blkio'' = Inr False
   \<and> MaybeAddIsolator (Opened proc_cgroups_fixture None) [NewUnitOption ''Service'' ''Slice'' ''m'']
        ''blkio'' (Some \<lparr>Value = 1, MilliValue = 1000, String = ''1''\<rparr>)
       = (Returns (Inr [NewUnitOption ''Service'' ''Slice'' ''m'']), [warning_unsupported ''blkio''])"
  using MaybeAddIsolator_noop
          [of "Opened proc_cgroups_fixture None"
              "[NewUnitOption ''Service'' ''Slice'' ''m'']" "''blkio''"
              "Some \<lparr>Value = 1, MilliValue = 1000, String = ''1''\<rparr>"]
  by (simp add: IsIsolatorSupported_def proc_cgroups_fixture_def tabbed_def strings_HasPrefix_def)

text \<open>
  Claim C10. \<open>MaybeAddIsolator\<close> calls a nil function exactly when the quantity is
  not nil, \<open>IsIsolatorSupported\<close> reports true and the isolator is neither \<open>cpu\<close> nor
  \<open>memory\<close>, the two keys of \<open>isolatorFuncs\<close>. The fault is reachable for every other
  isolator name: a \<open>/proc/cgroups\<close> with a row that starts with the name suffices.
\<close>

theorem MaybeAddIsolator_nil_function:
  "(fst (MaybeAddIsolator f opts isolator limit) = Panics \<longleftrightarrow>
      limit \<noteq> None \<and> IsIsolatorSupported f isolator = Inr True
      \<and> isolator \<noteq> ''cpu'' \<and> isolator \<noteq> ''memory'')
   \<and> (isolator \<noteq> ''cpu'' \<longrightarrow> isolator \<noteq> ''memory'' \<longrightarrow>
        MaybeAddIsolator (Opened (header # (isolator @ rest) # others) scanErr) opts isolator (Some q)
          = (Panics, []))"
proof -
  have keys: "isolatorFuncs isolator = None \<longleftrightarrow> isolator \<noteq> ''cpu'' \<and> isolator \<noteq> ''memory''"
    by (simp add: isolatorFuncs_def)
  have sup: "IsIsolatorSupported (Opened (header # (isolator @ rest) # others) scanErr) isolator
               = Inr True"
    by (simp add: IsIsolatorSupported_def strings_HasPrefix_def)
  have 1: "fst (MaybeAddIsolator f opts isolator limit) = Panics \<longleftrightarrow>
      limit \<noteq> None \<and> IsIsolatorSupported f isolator = Inr True
      \<and> isolator \<noteq> ''cpu'' \<and> isolator \<noteq> ''memory''"
    using keys by (auto simp: MaybeAddIsolator_def split: option.splits sum.splits)
  have 2: "isolator \<noteq> ''cpu'' \<longrightarrow> isolator \<noteq> ''memory'' \<longrightarrow>
        MaybeAddIsolator (Opened (header # (isolator @ rest) # others) scanErr) opts isolator (Some q)
          = (Panics, [])"
    using keys sup by (auto simp: MaybeAddIsolator_def)
  from 1 2 show ?thesis by blast
qed

text \<open>\<open>pids\<close> is a row of the fixture and no key of \<open>isolatorFuncs\<close>: the call panics;
  \<open>cpu\<close> does not.\<close>

theorem MaybeAddIsolator_nil_function_witness:
  "IsIsolatorSupported (Opened proc_cgroups_fixture None) ''pids'' = Inr True
   \<and> MaybeAddIsolator (Opened proc_cgroups_fixture None) [] ''pids''
        (Some \<lparr>Value = 100, MilliValue = 100000, String = ''100''\<rparr>) = (Panics, [])
   \<and> fst (MaybeAddIsolator (Opened proc_cgroups_fixture None) [] ''cpu''
        (Some \<lparr>Value = 1, MilliValue = 500, String = ''500m''\<rparr>)) \<noteq> Panics"
proof -
  let ?f = "Opened proc_cgroups_fixture None"
  have s: "IsIsolatorSupported ?f ''pids'' = Inr True"
    by (simp add: IsIsolatorSupported_def proc_cgroups_fixture_def tabbed_def strings_HasPrefix_def)
  have p: "''pids'' \<noteq> ''cpu'' \<and> ''pids'' \<noteq> ''memory''" by simp
  from MaybeAddIsolator_nil_function
         [of ?f "[]" "''pids''" "Some \<lparr>Value = 100, MilliValue = 100000, String = ''100''\<rparr>"] s p
  have a: "fst (MaybeAddIsolator ?f [] ''pids''
        (Some \<lparr>Value = 100, MilliValue = 100000, String = ''100''\<rparr>)) = Panics"
    by simp
  have b: "snd (MaybeAddIsolator ?f [] ''pids''
        (Some \<lparr>Value = 100, MilliValue = 100000, String = ''100''\<rparr>)) = []"
    by (simp add: MaybeAddIsolator_def s split: option.splits)
  from MaybeAddIsolator_nil_function
         [of ?f "[]" "''cpu''" "Some \<lparr>Value = 1, MilliValue = 500, String = ''500m''\<rparr>"]
  have c: "fst (MaybeAddIsolator ?f [] ''cpu''
        (Some \<lparr>Value = 1, MilliValue = 500, String = ''500m''\<rparr>)) \<noteq> Panics"
    by simp
  from s a b c show ?thesis by (simp add: prod_eq_iff)
qed

section \<open>Controller inventory: parseLegacyCgroups\<close>

lemmas scan_eval = Sscanf_row_def scan_string_def scan_space_def scan_int_def skipSpace_def
  isSpace_def isDigit_def digits_val_def digit_val_def tabbed_def

lemma row_cpu1: "Sscanf_row (tabbed [''cpu'', ''1'', ''1'', ''1'']) = (''cpu'', 1, 1, 1)"
  by (simp add: scan_eval)

lemma row_cpu2: "Sscanf_row (tabbed [''cpu'', ''2'', ''1'', ''1'']) = (''cpu'', 2, 1, 1)"
  by (simp add: scan_eval)

lemma row_hdr: "Sscanf_row (tabbed [''#subsys_name'', ''hierarchy'', ''num_cgroups'', ''enabled'']) = (''#subsys_name'', 0, 0, 0)"
  by (simp add: scan_eval)

lemma scan_rows_lookup:
  "scan_rows ls m h =
     (case m h of
        None \<Rightarrow> if group_of (map Sscanf_row ls) h = [] then None
                 else Some (group_of (map Sscanf_row ls) h)
      | Some cs \<Rightarrow> Some (cs @ group_of (map Sscanf_row ls) h))"
proof (induction ls arbitrary: m)
  case Nil
  then show ?case by (simp add: group_of_def split: option.splits)
next
  case (Cons line rest)
  obtain c hi n e where row: "Sscanf_row line = (c, hi, n, e)"
    by (cases "Sscanf_row line") auto
  show ?case
    by (simp add: row Cons.IH group_of_def split: option.splits)
qed

lemma parseLegacyCgroups_lookup:
  "parseLegacyCgroups lines None =
     Inr (\<lambda>h. if group_of (rows_of lines) h = [] then None else Some (group_of (rows_of lines) h))"
  by (simp add: parseLegacyCgroups_def scan_rows_lookup rows_of_def fun_eq_iff)

lemma in_group_of:
  "c \<in> set (group_of rows h) \<longleftrightarrow> (\<exists>n. (c, h, n, 1) \<in> set rows)"
  by (force simp: group_of_def)

lemma in_enabled_rows:
  "r \<in> set (enabled_rows lines) \<longleftrightarrow> r \<in> set (rows_of lines) \<and> snd (snd (snd r)) = 1"
  by (auto simp: enabled_rows_def)

lemma distinct_group_of:
  assumes "distinct (map fst (filter (\<lambda>(c, h, n, e). e = 1) rows))"
  shows "distinct (group_of rows h)"
proof -
  have "distinct (map fst (filter (\<lambda>r. fst (snd r) = h) (filter (\<lambda>(c, h, n, e). e = 1) rows)))"
    using assms by (rule distinct_map_filter)
  then show ?thesis
    by (simp add: group_of_def case_prod_unfold)
qed

lemma distinct_fst_unique:
  "distinct (map fst xs) \<Longrightarrow> (k, v) \<in> set xs \<Longrightarrow> (k, v') \<in> set xs \<Longrightarrow> v = v'"
  by (metis eq_key_imp_eq_value)

text \<open>
  Claim C6, as amended. When the scanner reports an error, \<open>parseLegacyCgroups\<close>
  returns it. Otherwise it returns a map in which hierarchy \<open>h\<close> holds the names of the
  rows (the lines after the first) whose \<open>enabled\<close> field reads 1 and whose hierarchy
  field reads \<open>h\<close>, in the order of the file, and no entry for a hierarchy without
  such a row; so the names in the map are exactly the names of the enabled rows.
  If no name occurs in two enabled rows, each name of an enabled row lies in exactly
  one group, and no group holds a name twice. The parser does not remove duplicates.
\<close>

theorem parseLegacyCgroups_groups:
  "parseLegacyCgroups lines (Some err) = Inl err
   \<and> (\<exists>cgroups. parseLegacyCgroups lines None = Inr cgroups
        \<and> (\<forall>h. cgroups h = (if group_of (rows_of lines) h = [] then None
                              else Some (group_of (rows_of lines) h)))
        \<and> (\<forall>c. (\<exists>h cs. cgroups h = Some cs \<and> c \<in> set cs)
                  \<longleftrightarrow> c \<in> fst ` set (enabled_rows lines))
        \<and> (distinct (map fst (enabled_rows lines)) \<longrightarrow>
              (\<forall>c \<in> fst ` set (enabled_rows lines). \<exists>!h. \<exists>cs. cgroups h = Some cs \<and> c \<in> set cs)
              \<and> (\<forall>h cs. cgroups h = Some cs \<longrightarrow> distinct cs)))"
proof -
  let ?g = "group_of (rows_of lines)"
  let ?m = "\<lambda>h. if ?g h = [] then None else Some (?g h)"
  have mem: "(\<exists>cs. ?m h = Some cs \<and> c \<in> set cs) \<longleftrightarrow> c \<in> set (?g h)" for h c
    by auto
  have names: "(\<exists>h. c \<in> set (?g h)) \<longleftrightarrow> c \<in> fst ` set (enabled_rows lines)" for c
    by (force simp: in_group_of in_enabled_rows)
  have uniq: "\<exists>!h. c \<in> set (?g h)"
    if d: "distinct (map fst (enabled_rows lines))" and c: "c \<in> fst ` set (enabled_rows lines)" for c
  proof -
    from c names obtain h where h: "c \<in> set (?g h)" by blast
    have "h' = h" if "c \<in> set (?g h')" for h'
    proof -
      from h obtain n where 1: "(c, h, n, 1) \<in> set (enabled_rows lines)"
        by (auto simp: in_group_of in_enabled_rows)
      from that obtain n' where 2: "(c, h', n', 1) \<in> set (enabled_rows lines)"
        by (auto simp: in_group_of in_enabled_rows)
      from distinct_fst_unique [OF d 2 1] show ?thesis by simp
    qed
    with h show ?thesis by blast
  qed
  have dist: "distinct (?g h)" if "distinct (map fst (enabled_rows lines))" for h
    using that by (simp add: enabled_rows_def distinct_group_of)
  have 1: "parseLegacyCgroups lines (Some err) = Inl err"
    by (simp add: parseLegacyCgroups_def)
  have 2: "\<forall>c. (\<exists>h cs. ?m h = Some cs \<and> c \<in> set cs) \<longleftrightarrow> c \<in> fst ` set (enabled_rows lines)"
    unfolding mem names by simp
  have 3: "distinct (map fst (enabled_rows lines)) \<longrightarrow>
              (\<forall>c \<in> fst ` set (enabled_rows lines). \<exists>!h. \<exists>cs. ?m h = Some cs \<and> c \<in> set cs)
              \<and> (\<forall>h cs. ?m h = Some cs \<longrightarrow> distinct cs)"
  proof (intro impI conjI ballI allI)
    fix c assume "distinct (map fst (enabled_rows lines))" "c \<in> fst ` set (enabled_rows lines)"
    then have "\<exists>!h. c \<in> set (?g h)" by (rule uniq)
    then show "\<exists>!h. \<exists>cs. ?m h = Some cs \<and> c \<in> set cs"
      unfolding mem .
  next
    fix h cs assume "distinct (map fst (enabled_rows lines))" "?m h = Some cs"
    then show "distinct cs" using dist [of h] by (auto split: if_splits)
  qed
  show ?thesis
  proof (intro conjI exI)
    show "parseLegacyCgroups lines (Some err) = Inl err" by (rule 1)
    show "parseLegacyCgroups lines None = Inr ?m" by (rule parseLegacyCgroups_lookup)
    show "\<forall>h. ?m h = (if ?g h = [] then None else Some (?g h))" by simp
    show "\<forall>c. (\<exists>h cs. ?m h = Some cs \<and> c \<in> set cs) \<longleftrightarrow> c \<in> fst ` set (enabled_rows lines)"
      by (rule 2)
    show "distinct (map fst (enabled_rows lines)) \<longrightarrow>
              (\<forall>c \<in> fst ` set (enabled_rows lines). \<exists>!h. \<exists>cs. ?m h = Some cs \<and> c \<in> set cs)
              \<and> (\<forall>h cs. ?m h = Some cs \<longrightarrow> distinct cs)"
      by (rule 3)
  qed
qed

text \<open>
  Claim C6 as stated speaks of every input. A file that lists \<open>cpu\<close> as enabled in
  hierarchy 1 and again in hierarchy 2 puts the name into both groups.
\<close>

theorem parseLegacyCgroups_duplicate_name:
  "\<exists>cgroups.
     parseLegacyCgroups
       [tabbed [''#subsys_name'', ''hierarchy'', ''num_cgroups'', ''enabled''],
        tabbed [''cpu'', ''1'', ''1'', ''1''],
        tabbed [''cpu'', ''2'', ''1'', ''1'']] None = Inr cgroups
     \<and> cgroups 1 = Some [''cpu''] \<and> cgroups 2 = Some [''cpu'']"
  by (simp add: parseLegacyCgroups_def row_cpu1 row_cpu2)

text \<open>On the fixture the names are distinct; \<open>cpu\<close> and \<open>cpuacct\<close> share hierarchy 2,
  the disabled \<open>memory\<close> row leaves hierarchy 0 without a group.\<close>

theorem parseLegacyCgroups_groups_witness:
  "distinct (map fst (enabled_rows proc_cgroups_fixture))
   \<and> (\<exists>cgroups. parseLegacyCgroups proc_cgroups_fixture None = Inr cgroups
        \<and> cgroups 2 = Some [''cpu'', ''cpuacct'']
        \<and> cgroups 3 = Some [''cpuset'']
        \<and> cgroups 0 = None
        \<and> (\<exists>!h. \<exists>cs. cgroups h = Some cs \<and> ''cpu'' \<in> set cs))"
proof -
  have rows: "rows_of proc_cgroups_fixture =
      [(''cpuset'', 3, 1, 1), (''cpu'', 2, 5, 1), (''cpuacct'', 2, 5, 1),
       (''memory'', 0, 1, 0), (''devices'', 4, 7, 1), (''pids'', 5, 9, 1)]"
    by (simp add: rows_of_def proc_cgroups_fixture_def scan_eval)
  have d: "distinct (map fst (enabled_rows proc_cgroups_fixture))"
    by (simp add: enabled_rows_def rows)
  have c: "''cpu'' \<in> fst ` set (enabled_rows proc_cgroups_fixture)"
    by (simp add: enabled_rows_def rows)
  from parseLegacyCgroups_groups [of proc_cgroups_fixture "OtherError []", THEN conjunct2]
  obtain cgroups where p: "parseLegacyCgroups proc_cgroups_fixture None = Inr cgroups"
    and g: "\<forall>h. cgroups h = (if group_of (rows_of proc_cgroups_fixture) h = [] then None
                              else Some (group_of (rows_of proc_cgroups_fixture) h))"
    and n: "\<forall>c. (\<exists>h cs. cgroups h = Some cs \<and> c \<in> set cs)
                  \<longleftrightarrow> c \<in> fst ` set (enabled_rows proc_cgroups_fixture)"
    and u: "distinct (map fst (enabled_rows proc_cgroups_fixture)) \<longrightarrow>
              (\<forall>c \<in> fst ` set (enabled_rows proc_cgroups_fixture).
                  \<exists>!h. \<exists>cs. cgroups h = Some cs \<and> c \<in> set cs)
              \<and> (\<forall>h cs. cgroups h = Some cs \<longrightarrow> distinct cs)"
    by (elim conjE exE)
  have g2: "cgroups 2 = Some [''cpu'', ''cpuacct'']"
    by (simp add: g group_of_def rows)
  have g3: "cgroups 3 = Some [''cpuset'']"
    by (simp add: g group_of_def rows)
  have g0: "cgroups 0 = None"
    by (simp add: g group_of_def rows)
  from u d c have one: "\<exists>!h. \<exists>cs. cgroups h = Some cs \<and> ''cpu'' \<in> set cs"
    by blast
  from d p g2 g3 g0 one show ?thesis by blast
qed

text \<open>
  Claim C7, as amended. \<open>parseLegacyCgroups\<close> skips one line, the first: its content
  never changes the result. The second line is read as a row of the fields name,
  hierarchy, number of cgroups and enabled; when its \<open>enabled\<close> field reads 1, its name is
  the first of its hierarchy's group.
\<close>

theorem parseLegacyCgroups_skips_first_line:
  "parseLegacyCgroups (first # rest) scanErr = parseLegacyCgroups (first' # rest) scanErr
   \<and> (Sscanf_row second = (controller, hierarchy, num, 1) \<longrightarrow>
        (\<exists>cgroups cs. parseLegacyCgroups (first # second # rest) None = Inr cgroups
           \<and> cgroups hierarchy = Some (controller # cs)))"
  by (simp add: parseLegacyCgroups_def scan_rows_lookup group_of_def)

text \<open>A header and one enabled row: the row is in the result.\<close>

theorem parseLegacyCgroups_skips_first_line_witness:
  "Sscanf_row (tabbed [''cpu'', ''1'', ''1'', ''1'']) = (''cpu'', 1, 1, 1)
   \<and> (\<exists>cgroups cs.
         parseLegacyCgroups
           [tabbed [''#subsys_name'', ''hierarchy'', ''num_cgroups'', ''enabled''],
            tabbed [''cpu'', ''1'', ''1'', ''1'']] None = Inr cgroups
         \<and> cgroups 1 = Some (''cpu'' # cs))"
  using parseLegacyCgroups_skips_first_line
          [of "tabbed [''#subsys_name'', ''hierarchy'', ''num_cgroups'', ''enabled'']" "[]" None
              "tabbed [''#subsys_name'', ''hierarchy'', ''num_cgroups'', ''enabled'']"
              "tabbed [''cpu'', ''1'', ''1'', ''1'']" "''cpu''" 1 1]
        row_cpu1
  by simp

text \<open>
  Claim C7 as stated has the parser skip two lines, so the second line could not
  change the result. It does: after the header, the row \<open>cpu 1 1 1\<close> in second place
  yields the group \<open>cpu\<close>, a repeated header line in its place yields none.
\<close>

theorem parseLegacyCgroups_second_line_is_a_row:
  "\<not> (\<forall>first second second' rest.
         parseLegacyCgroups (first # second # rest) None
           = parseLegacyCgroups (first # second' # rest) None)"
proof
  assume a: "\<forall>first second second' rest.
         parseLegacyCgroups (first # second # rest) None
           = parseLegacyCgroups (first # second' # rest) None"
  let ?h = "tabbed [''#subsys_name'', ''hierarchy'', ''num_cgroups'', ''enabled'']"
  let ?r = "tabbed [''cpu'', ''1'', ''1'', ''1'']"
  from a have "parseLegacyCgroups [?h, ?r] None = parseLegacyCgroups [?h, ?h] None"
    by blast
  then have "scan_rows [?r] Map.empty 1 = scan_rows [?h] Map.empty 1"
    by (simp add: parseLegacyCgroups_def)
  then show False
    by (simp add: row_cpu1 row_hdr)
qed

section \<open>Path resolver: GetLegacyCgroupPathByPid\<close>

lemma scan_controller_find:
  assumes "\<forall>l \<in> set (takeWhile (\<lambda>t. \<not> lists_controller controller t) lines). three_fields l"
  shows "scan_controller lines controller =
     (case List.find (lists_controller controller) lines of
        None \<Rightarrow> Inl (ControllerNotFound controller)
      | Some l \<Rightarrow> Inr (strings_SplitN l CHR '':'' 3))"
  using assms
proof (induction lines)
  case Nil
  then show ?case by simp
next
  case (Cons l rest)
  show ?case
  proof (cases "lists_controller controller l")
    case True
    then show ?thesis
      by (simp add: lists_controller_def three_fields_def Let_def)
  next
    case False
    with Cons.prems have "three_fields l"
      and "\<forall>l \<in> set (takeWhile (\<lambda>t. \<not> lists_controller controller t) rest). three_fields l"
      by simp_all
    with False Cons.IH show ?thesis
      by (simp add: lists_controller_def three_fields_def Let_def)
  qed
qed

text \<open>
  Claim C8. On a \<open>/proc/<pid>/cgroup\<close> whose lines, up to the first one that lists
  the controller, each split into three fields at \<open>:\<close>, \<open>GetLegacyCgroupPathByPid\<close>
  returns the third field of the first line whose second field, split at \<open>,\<close>,
  contains the controller, and the error "controller not found" when no line does.
\<close>

theorem GetLegacyCgroupPathByPid_first_match:
  assumes "openFile (''/proc/'' @ Itoa pid @ ''/cgroup'') = Opened lines scanErr"
    and "\<forall>l \<in> set (takeWhile (\<lambda>t. \<not> lists_controller controller t) lines). three_fields l"
  shows "GetLegacyCgroupPathByPid openFile pid controller =
     (case List.find (lists_controller controller) lines of
        None \<Rightarrow> Inl (ControllerNotFound controller)
      | Some l \<Rightarrow> Inr (strings_SplitN l CHR '':'' 3 ! 2))"
  using assms
  by (simp add: GetLegacyCgroupPathByPid_def parseLegacyCgroupController_def scan_controller_find
        split: option.splits)

lemma Itoa_1234: "Itoa 1234 = ''1234''"
  by (simp add: Itoa_eval)

lemma SplitN_fixture:
  "strings_SplitN ''4:memory:/machine-slice/app1'' CHR '':'' 3 = [''4'', ''memory'', ''/machine-slice/app1'']"
  "strings_SplitN ''1:name=systemd:/user.slice'' CHR '':'' 3 = [''1'', ''name=systemd'', ''/user.slice'']"
  by (simp_all add: numeral_3_eq_3)

text \<open>The fixture with the line \<open>4:memory:/machine-slice/app1\<close>: \<open>memory\<close> resolves to
  \<open>/machine-slice/app1\<close>, \<open>cpu\<close> is not found.\<close>

theorem GetLegacyCgroupPathByPid_first_match_witness:
  "proc_pid_cgroup_fixture (''/proc/'' @ Itoa 1234 @ ''/cgroup'')
     = Opened [''4:memory:/machine-slice/app1'', ''1:name=systemd:/user.slice''] None
   \<and> list_all three_fields [''4:memory:/machine-slice/app1'', ''1:name=systemd:/user.slice'']
   \<and> GetLegacyCgroupPathByPid proc_pid_cgroup_fixture 1234 ''memory'' = Inr ''/machine-slice/app1''
   \<and> GetLegacyCgroupPathByPid proc_pid_cgroup_fixture 1234 ''cpu'' = Inl (ControllerNotFound ''cpu'')"
proof -
  let ?lines = "[''4:memory:/machine-slice/app1'', ''1:name=systemd:/user.slice'']"
  have f: "proc_pid_cgroup_fixture (''/proc/'' @ Itoa 1234 @ ''/cgroup'') = Opened ?lines None"
    by (simp add: proc_pid_cgroup_fixture_def Itoa_1234)
  have t: "list_all three_fields ?lines"
    by (simp add: three_fields_def SplitN_fixture)
  then have h: "\<forall>l \<in> set (takeWhile (\<lambda>t. \<not> lists_controller c t) ?lines). three_fields l" for c
    by (auto simp: list_all_iff dest: set_takeWhileD)
  have m: "GetLegacyCgroupPathByPid proc_pid_cgroup_fixture 1234 ''memory'' = Inr ''/machine-slice/app1''"
    using GetLegacyCgroupPathByPid_first_match
            [of proc_pid_cgroup_fixture 1234 ?lines None "''memory''"] f h [of "''memory''"]
    by (simp add: lists_controller_def three_fields_def SplitN_fixture)
  have c: "GetLegacyCgroupPathByPid proc_pid_cgroup_fixture 1234 ''cpu'' = Inl (ControllerNotFound ''cpu'')"
    using GetLegacyCgroupPathByPid_first_match
            [of proc_pid_cgroup_fixture 1234 ?lines None "''cpu''"] f h [of "''cpu''"]
    by (simp add: lists_controller_def three_fields_def SplitN_fixture)
  from f t m c show ?thesis by simp
qed

section \<open>Whitelists\<close>

lemma range_parts_find:
  "range_parts parts =
     (case List.find (\<lambda>p. p \<in> {''memory'', ''cpu'', ''devices''}) parts of
        None \<Rightarrow> []
      | Some p \<Rightarrow>
          (if p = ''memory'' then [''memory.limit_in_bytes'']
           else if p = ''cpu'' then [''cpu.cfs_quota_us'']
           else [''devices.allow'', ''devices.deny'']) @ [''cgroup.procs''])"
  by (induction parts) (simp_all add: legacyCgroupControllerRWFiles_def)

lemma range_parts_procs:
  "''cgroup.procs'' \<in> set (range_parts parts)
     \<longleftrightarrow> (\<exists>p \<in> set parts. p \<in> {''memory'', ''cpu'', ''devices''})"
  by (induction parts) (simp_all add: legacyCgroupControllerRWFiles_def)

text \<open>
  Claim C3, as amended. \<open>getLegacyControllerRWFiles\<close> looks for the first
  comma-separated part of the directory name that is \<open>memory\<close>, \<open>cpu\<close> or \<open>devices\<close>. It
  returns that part's whitelist followed by \<open>cgroup.procs\<close>, and the empty list when
  there is no such part. So the result contains \<open>cgroup.procs\<close> exactly when some
  part of the name is \<open>memory\<close>, \<open>cpu\<close> or \<open>devices\<close>.
\<close>

theorem getLegacyControllerRWFiles_whitelist:
  "getLegacyControllerRWFiles controller =
     (case List.find (\<lambda>p. p \<in> {''memory'', ''cpu'', ''devices''})
             (strings_Split controller CHR '','') of
        None \<Rightarrow> []
      | Some p \<Rightarrow>
          (if p = ''memory'' then [''memory.limit_in_bytes'']
           else if p = ''cpu'' then [''cpu.cfs_quota_us'']
           else [''devices.allow'', ''devices.deny'']) @ [''cgroup.procs''])
   \<and> (''cgroup.procs'' \<in> set (getLegacyControllerRWFiles controller)
        \<longleftrightarrow> (\<exists>p \<in> set (strings_Split controller CHR '',''). p \<in> {''memory'', ''cpu'', ''devices''}))"
  unfolding getLegacyControllerRWFiles_def
  using range_parts_find range_parts_procs by blast

text \<open>
  Claim C3 as stated has \<open>cgroup.procs\<close> in the list for every controller. For
  \<open>cpuset\<close> the list is empty.
\<close>

theorem getLegacyControllerRWFiles_cpuset:
  "getLegacyControllerRWFiles ''cpuset'' = []
   \<and> ''cgroup.procs'' \<notin> set (getLegacyControllerRWFiles ''cpuset'')"
  by (simp add: getLegacyControllerRWFiles_def legacyCgroupControllerRWFiles_def)

section \<open>Lockdown sequencer: the order of the mounts\<close>

subsection \<open>Calls of a run\<close>

lemma call_trace: "call k c s = (r, s') \<Longrightarrow> snd s' = snd s @ [c]"
  by (auto simp: call_def split: prod.splits)

lemma bind_mount_neq_remount_ro: "bind_mount q \<noteq> remount_ro p"
  by (simp add: bind_mount_def remount_ro_def MS_BIND_def MS_REMOUNT_def MS_NOSUID_def
        MS_NOEXEC_def MS_NODEV_def MS_RDONLY_def)

lemma bind_mount_inj: "bind_mount q = bind_mount q' \<longleftrightarrow> q = q'"
  by (auto simp: bind_mount_def)

lemma remount_ro_inj: "remount_ro p = remount_ro p' \<longleftrightarrow> p = p'"
  by (auto simp: remount_ro_def)

lemma is_mount_simps:
  "is_mount (bind_mount q)" "is_mount (remount_ro p)" "is_mount (Mount a b c d e)"
  "\<not> is_mount (MkdirAll p m)" "\<not> is_mount (Stat p)" "\<not> is_mount (ReadFile p)"
  "\<not> is_mount (WriteFile p x m)" "\<not> is_mount (Symlink a b)"
  by (simp_all add: is_mount_def bind_mount_def remount_ro_def)

lemma calls_after_Cons: "calls_after c (x # t) = (if x = c then t else calls_after c t)"
  by (simp add: calls_after_def)

lemma calls_after_notin: "c \<notin> set t \<Longrightarrow> calls_after c t = []"
  by (induction t) (auto simp: calls_after_Cons, simp add: calls_after_def)

lemma calls_after_append_notin: "c \<notin> set xs \<Longrightarrow> calls_after c (xs @ ys) = calls_after c ys"
  by (induction xs) (auto simp: calls_after_Cons)

lemma calls_after_append_in: "c \<in> set xs \<Longrightarrow> calls_after c (xs @ ys) = calls_after c xs @ ys"
  by (induction xs) (auto simp: calls_after_Cons)

lemma before_or_after:
  "e \<in> set t \<Longrightarrow> e \<noteq> c \<Longrightarrow> e \<in> set (calls_before c t) \<or> e \<in> set (calls_after c t)"
  by (induction t) (auto simp: calls_after_Cons calls_before_def)

lemma continues_refl: "continues P s s"
  by (simp add: continues_def)

lemma continues_trans: "continues P s s1 \<Longrightarrow> continues P s1 s2 \<Longrightarrow> continues P s s2"
  by (auto simp: continues_def)

lemma continues_call:
  "call k c s = (r, s1) \<Longrightarrow> P c \<Longrightarrow> continues P s1 s2 \<Longrightarrow> continues P s s2"
  by (auto simp: continues_def dest!: call_trace)

lemma continues_mono: "continues P s s' \<Longrightarrow> (\<And>e. P e \<Longrightarrow> Q e) \<Longrightarrow> continues Q s s'"
  by (auto simp: continues_def)

lemma only_binds_mono: "only_binds S e \<Longrightarrow> S \<subseteq> T \<Longrightarrow> only_binds T e"
  by (auto simp: only_binds_def)

lemma only_binds_simps:
  "only_binds S (MkdirAll p m)" "only_binds S (Stat p)" "only_binds S (ReadFile p)"
  "only_binds S (WriteFile p x m)" "only_binds S (Symlink a b)"
  "q \<in> S \<Longrightarrow> only_binds S (Mount q q [] MS_BIND [])"
  by (auto simp: only_binds_def is_mount_def bind_mount_def)

lemma continues_call_opt:
  assumes "P c"
    and "\<And>d s1. continues P s1 (A d s1)"
    and "\<And>err d s1. continues P s1 (B err d s1)"
  shows "continues P s
           (case call k c s of ((None, d), s1) \<Rightarrow> A d s1 | ((Some err, d), s1) \<Rightarrow> B err d s1)"
  using assms by (auto split: prod.splits option.splits elim!: continues_call)

lemma continues_call_any:
  assumes "P c" and "\<And>r s1. continues P s1 (F r s1)"
  shows "continues P s (case call k c s of (r, s1) \<Rightarrow> F r s1)"
  using assms by (auto split: prod.splits elim!: continues_call)

lemma continues_snd_call_opt:
  assumes "P c"
    and "\<And>d s1. continues P s1 (snd (A d s1))"
    and "\<And>err d s1. continues P s1 (snd (B err d s1))"
  shows "continues P s
           (snd (case call k c s of ((None, d), s1) \<Rightarrow> A d s1 | ((Some err, d), s1) \<Rightarrow> B err d s1))"
  using assms by (auto split: prod.splits option.splits elim!: continues_call)

lemma continues_snd_call_pair:
  assumes "P c" and "\<And>e d s1. continues P s1 (snd (F e d s1))"
  shows "continues P s (snd (case call k c s of ((e, d), s1) \<Rightarrow> F e d s1))"
  using assms by (auto split: prod.splits elim!: continues_call)

lemma continues_if:
  "(b \<Longrightarrow> continues P s x) \<Longrightarrow> (\<not> b \<Longrightarrow> continues P s y) \<Longrightarrow> continues P s (if b then x else y)"
  by simp

lemma continues_snd_if:
  "(b \<Longrightarrow> continues P s (snd x)) \<Longrightarrow> (\<not> b \<Longrightarrow> continues P s (snd y))
   \<Longrightarrow> continues P s (snd (if b then x else y))"
  by simp

lemma continues_snd_result:
  assumes "continues P s (snd (f s))" and "\<And>s1. continues P s1 (snd (g s1))"
  shows "continues P s
           (snd (case f s of (Some err, s1) \<Rightarrow> (Some err, s1) | (None, s1) \<Rightarrow> g s1))"
proof -
  obtain r s1 where fs: "f s = (r, s1)" by (cases "f s")
  with assms(1) have 1: "continues P s s1" by simp
  show ?thesis
  proof (cases r)
    case None
    with fs show ?thesis using continues_trans [OF 1 assms(2) [of s1]] by simp
  next
    case (Some err)
    with fs 1 show ?thesis by simp
  qed
qed

lemma fix_knobs_continues: "continues (only_binds {}) s (fix_knobs k p knobs s)"
proof (induction knobs arbitrary: s)
  case Nil
  show ?case by (simp add: continues_refl)
next
  case (Cons knob knobs)
  show ?case
    unfolding fix_knobs.simps Let_def
    by (intro continues_call_opt continues_if continues_call_any Cons.IH)
       (simp_all add: only_binds_simps)
qed

lemma fixCpusetKnobs_continues: "continues (only_binds {}) s (fixCpusetKnobs k p s)"
  unfolding fixCpusetKnobs_def Let_def
  by (intro continues_call_any fix_knobs_continues) (simp add: only_binds_simps)

lemma bind_files_continues:
  "continues (only_binds ((\<lambda>f. filepath_Join [app, f]) ` set fs)) s (snd (bind_files k app fs s))"
proof (induction fs arbitrary: s)
  case Nil
  show ?case by (simp add: continues_refl)
next
  case (Cons f fs)
  let ?S = "(\<lambda>f. filepath_Join [app, f]) ` set (f # fs)"
  have ih: "continues (only_binds ?S) s1 (snd (bind_files k app fs s1))" for s1
    using Cons.IH [of s1] by (rule continues_mono) (erule only_binds_mono, auto)
  show ?case
    unfolding bind_files.simps Let_def
    by (intro continues_snd_call_pair continues_snd_if continues_snd_call_opt ih)
       (simp_all add: only_binds_simps continues_refl)
qed

lemma bind_services_continues:
  "continues
     (only_binds (set (concat (map (\<lambda>sv. map (\<lambda>f. filepath_Join [filepath_Join [sp, sv], f])
                                         (getLegacyControllerRWFiles c)) svs))))
     s (snd (bind_services k sp c svs s))"
proof (induction svs arbitrary: s)
  case Nil
  show ?case by (simp add: continues_refl)
next
  case (Cons sv svs)
  let ?S = "set (concat (map (\<lambda>sv. map (\<lambda>f. filepath_Join [filepath_Join [sp, sv], f])
                                         (getLegacyControllerRWFiles c)) (sv # svs)))"
  have ih: "continues (only_binds ?S) s1 (snd (bind_services k sp c svs s1))" for s1
    using Cons.IH [of s1] by (rule continues_mono) (erule only_binds_mono, auto)
  have bf: "continues (only_binds ?S) s1
              (snd (bind_files k (filepath_Join [sp, sv]) (getLegacyControllerRWFiles c) s1))" for s1
    using bind_files_continues [of "filepath_Join [sp, sv]" "getLegacyControllerRWFiles c" s1 k]
    by (rule continues_mono) (erule only_binds_mono, auto)
  show ?case
    unfolding bind_services.simps Let_def
    by (intro continues_snd_call_opt continues_snd_result bf ih)
       (simp_all add: only_binds_simps continues_refl)
qed

lemma mountFsRO_trace: "snd (snd (mountFsRO k p s)) = snd s @ [remount_ro p]"
  by (auto simp: mountFsRO_def remount_ro_def Let_def split: prod.splits option.splits
        dest!: call_trace)

subsection \<open>The loop over the controllers\<close>

lemma only_binds_no_remount: "\<forall>e \<in> set es. only_binds S e \<Longrightarrow> remount_ro p \<notin> set es"
  by (auto simp: only_binds_def is_mount_simps bind_mount_neq_remount_ro [symmetric])

lemma controller_block:
  "continues (only_binds (set (whitelist_paths root sub svcs c))) s
     (snd (bind_services k (filepath_Join [controller_path root c, sub, ''system.slice'']) c svcs
             (if c = ''cpuset'' then fixCpusetKnobs k (controller_path root c) s else s)))"
proof -
  let ?W = "set (whitelist_paths root sub svcs c)"
  let ?s0 = "if c = ''cpuset'' then fixCpusetKnobs k (controller_path root c) s else s"
  have 0: "continues (only_binds ?W) s ?s0"
    using fixCpusetKnobs_continues [of s k "controller_path root c"]
    by (auto simp: continues_refl elim!: continues_mono only_binds_mono)
  have 1: "continues (only_binds ?W) ?s0
     (snd (bind_services k (filepath_Join [controller_path root c, sub, ''system.slice'']) c svcs ?s0))"
    using bind_services_continues
            [of "filepath_Join [controller_path root c, sub, ''system.slice'']" c svcs ?s0 k]
    by (simp add: whitelist_paths_def)
  from 0 1 show ?thesis by (rule continues_trans)
qed

lemma no_aliasing_Cons:
  "no_aliasing root sub svcs (c # cs) \<Longrightarrow> no_aliasing root sub svcs cs"
  by (simp add: no_aliasing_def)

lemma remount_controllers_calls:
  "\<exists>es. snd (snd (remount_controllers k (filepath_Join [root, ''/sys/fs/cgroup'']) sub svcs cs s))
          = snd s @ es
     \<and> (\<forall>e \<in> set es. is_mount e \<longrightarrow>
           (\<exists>c \<in> set cs. e = remount_ro (controller_path root c)
                         \<or> e \<in> bind_mount ` set (whitelist_paths root sub svcs c)))
     \<and> (fst (remount_controllers k (filepath_Join [root, ''/sys/fs/cgroup'']) sub svcs cs s) = None
          \<longrightarrow> (\<forall>c \<in> set cs. remount_ro (controller_path root c) \<in> set es))
     \<and> (no_aliasing root sub svcs cs \<longrightarrow>
          (\<forall>c \<in> set cs. \<forall>q \<in> set (whitelist_paths root sub svcs c).
              bind_mount q \<notin> set (calls_after (remount_ro (controller_path root c)) es)))"
proof (induction cs arbitrary: s)
  case Nil
  show ?case by simp
next
  case (Cons c cs)
  let ?T = "filepath_Join [root, ''/sys/fs/cgroup'']"
  let ?P = "controller_path root"
  let ?W = "\<lambda>c. set (whitelist_paths root sub svcs c)"
  let ?s0 = "if c = ''cpuset'' then fixCpusetKnobs k (?P c) s else s"
  let ?sp = "filepath_Join [?P c, sub, ''system.slice'']"
  obtain r1 s1 where b: "bind_services k ?sp c svcs ?s0 = (r1, s1)"
    by (cases "bind_services k ?sp c svcs ?s0")
  from controller_block [of root sub svcs c s k] b
  obtain pre where pre: "snd s1 = snd s @ pre" "\<forall>e \<in> set pre. only_binds (?W c) e"
    by (auto simp: continues_def)
  have nopre: "remount_ro p \<notin> set pre" for p
    using pre(2) by (rule only_binds_no_remount)
  have preA: "\<forall>e \<in> set pre. is_mount e \<longrightarrow> e \<in> bind_mount ` ?W c"
    using pre(2) by (simp add: only_binds_def)
  have unfold: "remount_controllers k ?T sub svcs (c # cs) s =
      (case r1 of Some err \<Rightarrow> (Some err, s1)
       | None \<Rightarrow> (case mountFsRO k (?P c) s1 of
                     (Some err, s2) \<Rightarrow> (Some err, s2)
                   | (None, s2) \<Rightarrow> remount_controllers k ?T sub svcs cs s2))"
  proof -
    have b': "bind_services k
        (filepath_Join [filepath_Join [?T, c], sub, ''system.slice'']) c svcs
        (if c = ''cpuset'' then fixCpusetKnobs k (filepath_Join [?T, c]) s else s) = (r1, s1)"
      using b unfolding controller_path_def .
    show ?thesis
      unfolding remount_controllers.simps Let_def controller_path_def b' prod.case
      by (rule refl)
  qed
  show ?case
  proof (cases r1)
    case (Some err)
    have "calls_after (remount_ro p) pre = []" for p
      using nopre by (rule calls_after_notin)
    with Some unfold pre preA show ?thesis
      by (intro exI [of _ pre]) auto
  next
    case None
    obtain r2 s2 where m: "mountFsRO k (?P c) s1 = (r2, s2)"
      by (cases "mountFsRO k (?P c) s1")
    from mountFsRO_trace [of k "?P c" s1] m pre
    have s2: "snd s2 = snd s @ pre @ [remount_ro (?P c)]" by simp
    show ?thesis
    proof (cases r2)
      case (Some err)
      have "calls_after (remount_ro p) (pre @ [remount_ro (?P c)]) = []" for p
        using nopre [of p] by (simp add: calls_after_append_notin calls_after_Cons) (simp add: calls_after_def)
      with Some None unfold m s2 preA show ?thesis
        by (intro exI [of _ "pre @ [remount_ro (?P c)]"]) auto
    next
      case r2: None
      from Cons.IH [of s2] obtain rest where
        rest: "snd (snd (remount_controllers k ?T sub svcs cs s2)) = snd s2 @ rest"
        and A: "\<forall>e \<in> set rest. is_mount e \<longrightarrow>
           (\<exists>c \<in> set cs. e = remount_ro (?P c) \<or> e \<in> bind_mount ` ?W c)"
        and C: "fst (remount_controllers k ?T sub svcs cs s2) = None
          \<longrightarrow> (\<forall>c \<in> set cs. remount_ro (?P c) \<in> set rest)"
        and B: "no_aliasing root sub svcs cs \<longrightarrow>
          (\<forall>c \<in> set cs. \<forall>q \<in> ?W c. bind_mount q \<notin> set (calls_after (remount_ro (?P c)) rest))"
        by (elim exE conjE)
      let ?es = "pre @ remount_ro (?P c) # rest"
      have res: "remount_controllers k ?T sub svcs (c # cs) s = remount_controllers k ?T sub svcs cs s2"
        using unfold None m r2 by simp
      have 1: "snd (snd (remount_controllers k ?T sub svcs (c # cs) s)) = snd s @ ?es"
        using res rest s2 by simp
      have 2: "\<forall>e \<in> set ?es. is_mount e \<longrightarrow>
           (\<exists>c' \<in> set (c # cs). e = remount_ro (?P c') \<or> e \<in> bind_mount ` ?W c')"
        using preA A by auto
      have 3: "fst (remount_controllers k ?T sub svcs (c # cs) s) = None
          \<longrightarrow> (\<forall>c' \<in> set (c # cs). remount_ro (?P c') \<in> set ?es)"
        using res C by auto
      have 4: "bind_mount q \<notin> set (calls_after (remount_ro (?P c')) ?es)"
        if na: "no_aliasing root sub svcs (c # cs)" and c': "c' \<in> set (c # cs)" and q: "q \<in> ?W c'"
        for c' q
      proof -
        have after: "calls_after (remount_ro (?P c')) ?es
                       = (if ?P c = ?P c' then rest else calls_after (remount_ro (?P c')) rest)"
          using nopre [of "?P c'"]
          by (simp add: calls_after_append_notin calls_after_Cons remount_ro_inj)
        show ?thesis
        proof (cases "?P c = ?P c'")
          case True
          have "bind_mount q \<notin> set rest"
          proof
            assume "bind_mount q \<in> set rest"
            with A obtain c1 where c1: "c1 \<in> set cs"
              and "bind_mount q = remount_ro (?P c1) \<or> bind_mount q \<in> bind_mount ` ?W c1"
              by (auto simp: is_mount_simps)
            then have "q \<in> ?W c1"
              by (auto simp: bind_mount_neq_remount_ro bind_mount_inj)
            with q have "?W c' \<inter> ?W c1 \<noteq> {}" by auto
            with na c' c1 have "?P c' = ?P c1"
              by (simp add: no_aliasing_def) blast
            with True have "?P c = ?P c1" by simp
            with na c1 show False
              by (auto simp: no_aliasing_def)
          qed
          with after True show ?thesis by simp
        next
          case False
          with c' have "c' \<in> set cs" by auto
          with B no_aliasing_Cons [OF na] q
          have "bind_mount q \<notin> set (calls_after (remount_ro (?P c')) rest)" by blast
          with after False show ?thesis by simp
        qed
      qed
      from 1 2 3 4 show ?thesis
        by (intro exI [of _ ?es]) blast
    qed
  qed
qed

subsection \<open>RemountLegacyCgroupsRO\<close>

text \<open>
  Claim C1, as amended. Take any run of \<open>RemountLegacyCgroupsRO\<close>, whatever the
  operating system answers, and the list \<open>t\<close> of its calls. When the run succeeds, its
  last call is the read-only remount of \<open><root>/sys\<close>, and the read-only remount of
  every controller's mount point comes before it. Every bind-mount of the run is the
  bind-mount onto itself of a whitelist file of some controller directory in the
  cgroup of some service. If the controller directories do not alias (their mount
  points are pairwise distinct paths, and no path is a whitelist file under two mount
  points), then for every controller no bind-mount of one of its whitelist files
  follows the read-only remount of its mount point: each one that is made is made
  before it.
\<close>

theorem RemountLegacyCgroupsRO_order:
  assumes run: "RemountLegacyCgroupsRO k root enabledCgroups subcgroup serviceNames (w, [])
                  = (res, (w', t))"
  shows "(res = None \<longrightarrow>
            t \<noteq> [] \<and> last t = remount_ro (filepath_Join [root, ''/sys''])
            \<and> (\<forall>c \<in> set (GetLegacyControllerDirs enabledCgroups).
                  remount_ro (controller_path root c) \<in> set (butlast t)))
     \<and> (\<forall>p. bind_mount p \<in> set t \<longrightarrow>
            (\<exists>c \<in> set (GetLegacyControllerDirs enabledCgroups).
                p \<in> set (whitelist_paths root subcgroup serviceNames c)))
     \<and> (no_aliasing root subcgroup serviceNames (GetLegacyControllerDirs enabledCgroups) \<longrightarrow>
          (\<forall>c \<in> set (GetLegacyControllerDirs enabledCgroups).
             \<forall>q \<in> set (whitelist_paths root subcgroup serviceNames c).
               bind_mount q \<notin> set (calls_after (remount_ro (controller_path root c)) t)
               \<and> (bind_mount q \<in> set t \<longrightarrow>
                    bind_mount q \<in> set (calls_before (remount_ro (controller_path root c)) t))))"
proof -
  let ?cs = "GetLegacyControllerDirs enabledCgroups"
  let ?T = "filepath_Join [root, ''/sys/fs/cgroup'']"
  let ?sys = "filepath_Join [root, ''/sys'']"
  let ?P = "controller_path root"
  let ?W = "\<lambda>c. set (whitelist_paths root subcgroup serviceNames c)"
  obtain r1 s1 where loop: "remount_controllers k ?T subcgroup serviceNames ?cs (w, []) = (r1, s1)"
    by (cases "remount_controllers k ?T subcgroup serviceNames ?cs (w, [])")
  from remount_controllers_calls [of k root subcgroup serviceNames ?cs "(w, [])"] loop
  obtain es where es: "snd s1 = es"
    and A: "\<forall>e \<in> set es. is_mount e \<longrightarrow>
              (\<exists>c \<in> set ?cs. e = remount_ro (?P c) \<or> e \<in> bind_mount ` ?W c)"
    and C: "r1 = None \<longrightarrow> (\<forall>c \<in> set ?cs. remount_ro (?P c) \<in> set es)"
    and B: "no_aliasing root subcgroup serviceNames ?cs \<longrightarrow>
              (\<forall>c \<in> set ?cs. \<forall>q \<in> ?W c.
                  bind_mount q \<notin> set (calls_after (remount_ro (?P c)) es))"
    by auto
  have binds: "\<exists>c \<in> set ?cs. p \<in> ?W c" if "bind_mount p \<in> set es" for p
  proof -
    from A that have "is_mount (bind_mount p) \<longrightarrow>
        (\<exists>c \<in> set ?cs. bind_mount p = remount_ro (?P c) \<or> bind_mount p \<in> bind_mount ` ?W c)"
      by (rule bspec)
    then obtain c where "c \<in> set ?cs" "bind_mount p \<in> bind_mount ` ?W c"
      by (auto simp: is_mount_simps bind_mount_neq_remount_ro)
    then show ?thesis
      by (auto simp: bind_mount_inj)
  qed
  have shape: "(r1 \<noteq> None \<and> res = r1 \<and> t = es) \<or> (r1 = None \<and> t = es @ [remount_ro ?sys])"
  proof (cases r1)
    case None
    with run loop es mountFsRO_trace [of k ?sys s1] show ?thesis
      by (simp add: RemountLegacyCgroupsRO_def Let_def)
  next
    case (Some err)
    with run loop es show ?thesis
      by (auto simp: RemountLegacyCgroupsRO_def Let_def)
  qed
  have 1: "res = None \<longrightarrow> t \<noteq> [] \<and> last t = remount_ro ?sys
            \<and> (\<forall>c \<in> set ?cs. remount_ro (?P c) \<in> set (butlast t))"
    using shape C by auto
  have 2: "\<forall>p. bind_mount p \<in> set t \<longrightarrow> (\<exists>c \<in> set ?cs. p \<in> ?W c)"
    using shape binds by (auto simp: bind_mount_neq_remount_ro)
  have 3: "bind_mount q \<notin> set (calls_after (remount_ro (?P c)) t)
           \<and> (bind_mount q \<in> set t \<longrightarrow> bind_mount q \<in> set (calls_before (remount_ro (?P c)) t))"
    if na: "no_aliasing root subcgroup serviceNames ?cs" and c: "c \<in> set ?cs" and q: "q \<in> ?W c"
    for c q
  proof -
    from B na c q have b: "bind_mount q \<notin> set (calls_after (remount_ro (?P c)) es)" by blast
    have after: "bind_mount q \<notin> set (calls_after (remount_ro (?P c)) t)"
    proof (cases "t = es")
      case True
      with b show ?thesis by simp
    next
      case False
      with shape have t: "t = es @ [remount_ro ?sys]" by auto
      show ?thesis
      proof (cases "remount_ro (?P c) \<in> set es")
        case True
        with t b show ?thesis
          by (simp add: calls_after_append_in bind_mount_neq_remount_ro)
      next
        case False
        with t show ?thesis
          by (simp add: calls_after_append_notin calls_after_Cons) (simp add: calls_after_def)
      qed
    qed
    with before_or_after [of "bind_mount q" t "remount_ro (?P c)"] show ?thesis
      by (auto simp: bind_mount_neq_remount_ro)
  qed
  from 1 2 3 show ?thesis by blast
qed

text \<open>
  Three hierarchies, one service, every call succeeding: the directories do not
  alias, the run succeeds, \<open>memory.limit_in_bytes\<close> of the service is bind-mounted
  before the memory controller is remounted read-only and not after, and the last
  call remounts \<open>/rootfs/sys\<close>.
\<close>

theorem RemountLegacyCgroupsRO_order_witness:
  "no_aliasing ''/rootfs'' ''machine.slice'' [''app.service'']
     (GetLegacyControllerDirs legacy_groups_fixture)
   \<and> ''memory'' \<in> set (GetLegacyControllerDirs legacy_groups_fixture)
   \<and> ''/rootfs/sys/fs/cgroup/memory/machine.slice/system.slice/app.service/memory.limit_in_bytes''
        \<in> set (whitelist_paths ''/rootfs'' ''machine.slice'' [''app.service''] ''memory'')
   \<and> fst (RemountLegacyCgroupsRO kernel_ok ''/rootfs'' legacy_groups_fixture ''machine.slice''
             [''app.service''] ((), [])) = None
   \<and> bind_mount
        ''/rootfs/sys/fs/cgroup/memory/machine.slice/system.slice/app.service/memory.limit_in_bytes''
        \<in> set (calls_before (remount_ro (controller_path ''/rootfs'' ''memory''))
                 (snd (snd (RemountLegacyCgroupsRO kernel_ok ''/rootfs'' legacy_groups_fixture
                              ''machine.slice'' [''app.service''] ((), [])))))
   \<and> bind_mount
        ''/rootfs/sys/fs/cgroup/memory/machine.slice/system.slice/app.service/memory.limit_in_bytes''
        \<notin> set (calls_after (remount_ro (controller_path ''/rootfs'' ''memory''))
                 (snd (snd (RemountLegacyCgroupsRO kernel_ok ''/rootfs'' legacy_groups_fixture
                              ''machine.slice'' [''app.service''] ((), [])))))
   \<and> last (snd (snd (RemountLegacyCgroupsRO kernel_ok ''/rootfs'' legacy_groups_fixture
                       ''machine.slice'' [''app.service''] ((), []))))
       = remount_ro ''/rootfs/sys''"
proof -
  let ?R = "RemountLegacyCgroupsRO kernel_ok ''/rootfs'' legacy_groups_fixture ''machine.slice''
              [''app.service''] ((), [])"
  let ?q = "''/rootfs/sys/fs/cgroup/memory/machine.slice/system.slice/app.service/memory.limit_in_bytes''"
  have na: "no_aliasing ''/rootfs'' ''machine.slice'' [''app.service'']
              (GetLegacyControllerDirs legacy_groups_fixture)"
    by code_simp
  have c: "''memory'' \<in> set (GetLegacyControllerDirs legacy_groups_fixture)"
    by code_simp
  have q: "?q \<in> set (whitelist_paths ''/rootfs'' ''machine.slice'' [''app.service''] ''memory'')"
    by code_simp
  have ok: "fst ?R = None"
    by code_simp
  have b: "bind_mount ?q \<in> set (snd (snd ?R))"
    by code_simp
  have sys: "filepath_Join [''/rootfs'', ''/sys''] = ''/rootfs/sys''"
    by code_simp
  have run: "?R = (fst ?R, ((), snd (snd ?R)))"
    by (simp add: prod_eq_iff)
  from RemountLegacyCgroupsRO_order [OF run] na c q ok b sys
  show ?thesis by simp
qed

text \<open>
  Claim C1 as stated speaks of every input. When two hierarchies give the same
  directory name, here \<open>cpu\<close> twice, the directory is processed twice: the second
  pass bind-mounts \<open>cgroup.procs\<close> of the service after the first pass has remounted
  the mount point read-only.
\<close>

theorem RemountLegacyCgroupsRO_duplicate_directory:
  "''cpu'' \<in> set (GetLegacyControllerDirs [(1, [''cpu'']), (2, [''cpu''])])
   \<and> ''/rootfs/sys/fs/cgroup/cpu/machine.slice/system.slice/app.service/cgroup.procs''
        \<in> set (whitelist_paths ''/rootfs'' ''machine.slice'' [''app.service''] ''cpu'')
   \<and> bind_mount ''/rootfs/sys/fs/cgroup/cpu/machine.slice/system.slice/app.service/cgroup.procs''
        \<in> set (calls_after (remount_ro (controller_path ''/rootfs'' ''cpu''))
                 (snd (snd (RemountLegacyCgroupsRO kernel_ok ''/rootfs''
                              [(1, [''cpu'']), (2, [''cpu''])] ''machine.slice''
                              [''app.service''] ((), [])))))"
  by code_simp

subsection \<open>RemountCgroupsRO\<close>






section \<open>Hierarchy builder: the mount of sysfs\<close>

text \<open>
  Claim C9, as amended. Let the directory \<open><root>/sys\<close> be created and let the mount
  of sysfs onto it answer \<open>err\<close>. \<open>CreateLegacyCgroups\<close> goes on with the mount of the
  tmpfs, from the same state, when the mount succeeded and when it failed with
  \<open>EBUSY\<close>; any other error ends the build with "error mounting". \<open>CreateCgroups\<close>,
  the unified path, ends the build with "error mounting" on every error, \<open>EBUSY\<close>
  included.
\<close>

theorem sysfs_mount_EBUSY:
  assumes "call k (MkdirAll (filepath_Join [root, ''/sys'']) mode_0700) s = ((None, d), s1)"
    and "call k (Mount ''sysfs'' (filepath_Join [root, ''/sys'']) ''sysfs''
                   (MS_NOSUID OR MS_NOEXEC OR MS_NODEV) []) s1 = ((err, d'), s2)"
  shows "CreateLegacyCgroups k root enabledCgroups mountContext s =
           (case err of
              None \<Rightarrow> CreateLegacyCgroups_tmpfs k root enabledCgroups mountContext s2
            | Some e \<Rightarrow>
                if e = Errno EBUSY
                then CreateLegacyCgroups_tmpfs k root enabledCgroups mountContext s2
                else (Some (Wrap (ErrorMounting (filepath_Join [root, ''/sys''])) e), s2))
     \<and> (\<forall>e. err = Some e \<longrightarrow>
           CreateCgroups k root s
             = (Some (Wrap (ErrorMounting (filepath_Join [root, ''/sys''])) e), s2))"
  using assms
  by (simp add: CreateLegacyCgroups_def CreateCgroups_def Let_def split: option.splits)

text \<open>
  Claim C9 as stated has both paths treat \<open>EBUSY\<close> as success. With sysfs already
  mounted on \<open>/sys\<close>, \<open>CreateCgroups\<close> fails after its second call.
\<close>

theorem CreateCgroups_sysfs_busy:
  "CreateCgroups kernel_sysfs_busy ''/'' ((), [])
     = (Some (Wrap (ErrorMounting ''/sys'') (Errno EBUSY)), (),
        [MkdirAll ''/sys'' mode_0700,
         Mount ''sysfs'' ''/sys'' ''sysfs'' (MS_NOSUID OR MS_NOEXEC OR MS_NODEV) []])"
  by code_simp

text \<open>With sysfs already mounted on \<open>/sys\<close>, \<open>CreateLegacyCgroups\<close> goes on and
  succeeds.\<close>

theorem sysfs_mount_EBUSY_witness:
  "call kernel_sysfs_busy (MkdirAll (filepath_Join [''/'', ''/sys'']) mode_0700) ((), [])
     = ((None, []), ((), [MkdirAll ''/sys'' mode_0700]))
   \<and> call kernel_sysfs_busy
        (Mount ''sysfs'' (filepath_Join [''/'', ''/sys'']) ''sysfs''
           (MS_NOSUID OR MS_NOEXEC OR MS_NODEV) []) ((), [MkdirAll ''/sys'' mode_0700])
     = ((Some (Errno EBUSY), []),
        ((), [MkdirAll ''/sys'' mode_0700,
              Mount ''sysfs'' ''/sys'' ''sysfs'' (MS_NOSUID OR MS_NOEXEC OR MS_NODEV) []]))
   \<and> CreateLegacyCgroups kernel_sysfs_busy ''/'' legacy_groups_fixture [] ((), [])
     = CreateLegacyCgroups_tmpfs kernel_sysfs_busy ''/'' legacy_groups_fixture []
         ((), [MkdirAll ''/sys'' mode_0700,
               Mount ''sysfs'' ''/sys'' ''sysfs'' (MS_NOSUID OR MS_NOEXEC OR MS_NODEV) []])
   \<and> fst (CreateLegacyCgroups kernel_sysfs_busy ''/'' legacy_groups_fixture [] ((), [])) = None"
proof -
  have 1: "call kernel_sysfs_busy (MkdirAll (filepath_Join [''/'', ''/sys'']) mode_0700) ((), [])
     = ((None, []), ((), [MkdirAll ''/sys'' mode_0700]))"
    by code_simp
  have 2: "call kernel_sysfs_busy
        (Mount ''sysfs'' (filepath_Join [''/'', ''/sys'']) ''sysfs''
           (MS_NOSUID OR MS_NOEXEC OR MS_NODEV) []) ((), [MkdirAll ''/sys'' mode_0700])
     = ((Some (Errno EBUSY), []),
        ((), [MkdirAll ''/sys'' mode_0700,
              Mount ''sysfs'' ''/sys'' ''sysfs'' (MS_NOSUID OR MS_NOEXEC OR MS_NODEV) []]))"
    by code_simp
  have 3: "fst (CreateLegacyCgroups kernel_sysfs_busy ''/'' legacy_groups_fixture [] ((), [])) = None"
    by code_simp
  from sysfs_mount_EBUSY [OF 1 2, of legacy_groups_fixture "[]"] 1 2 3
  show ?thesis by simp
qed

end
